theory Spec2Isabelle
  imports Complex_Main "HOL-Library.AList"
begin

text \<open>
  A model of the resilient-connection core of the trading client: the health monitor, the
  message dispatcher, the transport, the reconnection controller, the recovery coordinator and
  the reconciliation step of the orchestrator. Each method is a function from the state of its
  object to the new state; what a method awaits from outside (the venue's replies, the
  callbacks, the clock) is an argument. A \<open>try\<close> block is modelled by the exception its body
  ends with, so that what an \<open>except\<close> clause catches and what it lets through can be read off.
  Fields that exist only to state properties (counts of callback invocations, lines logged) are
  named as such where they are introduced.
\<close>

section \<open>Connection monitor (connection/connection_monitor.py)\<close>

text \<open>
  Python floats are modelled as exact reals throughout: every float the theorems below evaluate
  is a small dyadic or integral value, and no statement relies on rounding.
\<close>

datatype ConnectionQuality = EXCELLENT | GOOD | FAIR | POOR | CRITICAL

record ConnectionMetrics =
  latency_ms :: real
  uptime_percentage :: real
  message_rate_per_minute :: real
  error_rate_percentage :: real
  reconnection_count :: int
  last_disconnection_duration :: real

text \<open>The local variable \<open>score\<close> of \<open>_evaluate_connection_quality\<close>, penalty by penalty.\<close>

definition quality_score :: "ConnectionMetrics \<Rightarrow> real" where
  "quality_score metrics =
     (let score = 100;
          score = (if latency_ms metrics > 2000 then score - 30
                   else if latency_ms metrics > 1000 then score - 20
                   else if latency_ms metrics > 500 then score - 10
                   else if latency_ms metrics > 200 then score - 5
                   else score);
          score = (if uptime_percentage metrics < 95
                   then score - (95 - uptime_percentage metrics) * 2 else score);
          score = (if error_rate_percentage metrics > 5
                   then score - error_rate_percentage metrics * 3 else score);
          score = (if reconnection_count metrics > 5
                   then score - real_of_int ((reconnection_count metrics - 5) * 5) else score);
          score = (if last_disconnection_duration metrics > 60
                   then score - min 30 (last_disconnection_duration metrics / 2) else score)
      in score)"

definition quality_band :: "real \<Rightarrow> ConnectionQuality" where
  "quality_band score =
     (if score \<ge> 90 then EXCELLENT
      else if score \<ge> 70 then GOOD
      else if score \<ge> 50 then FAIR
      else if score \<ge> 30 then POOR
      else CRITICAL)"

definition evaluate_connection_quality :: "ConnectionMetrics \<Rightarrow> ConnectionQuality" where
  "evaluate_connection_quality metrics = quality_band (quality_score metrics)"

text \<open>
  The monitor's state as far as quality handling goes. \<open>reconnect_callback\<close> records whether a
  callback is registered; \<open>forced_reconnects\<close> counts the invocations of that callback (the
  callback's own exceptions are caught inside \<open>_handle_quality_change\<close> and change nothing here).
  \<open>connection_events\<close> keeps the (old, new) pairs of the event log, cut to the last 50.
\<close>

record ConnectionMonitor =
  current_quality :: ConnectionQuality
  consecutive_poor_checks :: int
  reconnect_callback :: bool
  forced_reconnects :: nat
  connection_events :: "(ConnectionQuality \<times> ConnectionQuality) list"

definition new_monitor :: "bool \<Rightarrow> ConnectionMonitor" where
  "new_monitor cb = \<lparr>current_quality = EXCELLENT, consecutive_poor_checks = 0,
     reconnect_callback = cb, forced_reconnects = 0, connection_events = []\<rparr>"

definition last_n :: "nat \<Rightarrow> 'a list \<Rightarrow> 'a list" where
  "last_n n xs = drop (length xs - n) xs"

definition handle_quality_change :: "ConnectionQuality \<Rightarrow> ConnectionMonitor \<Rightarrow> ConnectionMonitor" where
  "handle_quality_change new_quality s =
     (let old_quality = current_quality s;
          s = s\<lparr>current_quality := new_quality\<rparr>;
          s = s\<lparr>connection_events := connection_events s @ [(old_quality, new_quality)]\<rparr>;
          s = (if length (connection_events s) > 50
               then s\<lparr>connection_events := last_n 50 (connection_events s)\<rparr> else s)
      in if new_quality = CRITICAL then
           (let s = s\<lparr>consecutive_poor_checks := consecutive_poor_checks s + 1\<rparr>
            in if consecutive_poor_checks s \<ge> 3 \<and> reconnect_callback s
               then s\<lparr>forced_reconnects := Suc (forced_reconnects s)\<rparr> else s)
         else if new_quality = POOR \<or> new_quality = FAIR then
           s\<lparr>consecutive_poor_checks := consecutive_poor_checks s + 1\<rparr>
         else s\<lparr>consecutive_poor_checks := 0\<rparr>)"

text \<open>
  One pass of the body of \<open>_monitoring_loop\<close> on the metrics collected for that sample. The
  alert and history bookkeeping that follows in the loop writes other fields only and is left
  out.
\<close>

definition monitoring_iteration :: "ConnectionMetrics \<Rightarrow> ConnectionMonitor \<Rightarrow> ConnectionMonitor" where
  "monitoring_iteration metrics s =
     (let quality = evaluate_connection_quality metrics
      in if quality \<noteq> current_quality s then handle_quality_change quality s else s)"

fun monitoring_loop :: "ConnectionMetrics list \<Rightarrow> ConnectionMonitor \<Rightarrow> ConnectionMonitor" where
  "monitoring_loop [] s = s"
| "monitoring_loop (metrics # rest) s = monitoring_loop rest (monitoring_iteration metrics s)"

definition perfect_metrics :: ConnectionMetrics where
  "perfect_metrics = \<lparr>latency_ms = 0, uptime_percentage = 100, message_rate_per_minute = 0,
     error_rate_percentage = 0, reconnection_count = 0, last_disconnection_duration = 0\<rparr>"

section \<open>Message dispatcher (connection/message_processor.py)\<close>

text \<open>
  A decoded frame is a JSON object: a finite map from keys to JSON values. The classifier returns
  a Python value, a string literal in every branch but the generic one, which returns whatever
  the frame holds under \<open>msg_type\<close>.
\<close>

datatype json = JNull | JBool bool | JNum real | JStr string | JArr "json list"
  | JObj "(string \<times> json) list"

type_synonym frame = "string \<rightharpoonup> json"

datatype py_exception = KeyError | TypeError | AttributeError | IndexError
  | HandlerException string

text \<open>A handler either returns (\<open>None\<close>) or raises an \<open>Exception\<close> (\<open>Some e\<close>).\<close>

type_synonym handler = "json \<Rightarrow> py_exception option"

text \<open>
  \<open>error_log\<close> is not a field of the class: it lists the \<open>logger.error\<close> lines the
  dispatcher writes, in order.
\<close>

datatype log_entry = ApiErrorLogged | CallbackErrorLogged py_exception
  | ProcessingErrorLogged py_exception

record MessageProcessor =
  message_count :: int
  error_count :: int
  tick_callback :: "handler option"
  contract_callback :: "handler option"
  balance_callback :: "handler option"
  error_callback :: "handler option"
  ignored_message_types :: "string set"
  message_stats :: "json \<rightharpoonup> int"
  error_log :: "log_entry list"

definition new_processor :: MessageProcessor where
  "new_processor = \<lparr>message_count = 0, error_count = 0, tick_callback = None,
     contract_callback = None, balance_callback = None, error_callback = None,
     ignored_message_types = {''website_status'', ''msg_type'', ''pong'', ''ping''},
     message_stats = Map.empty, error_log = []\<rparr>"

definition has_key :: "frame \<Rightarrow> string \<Rightarrow> bool" where
  "has_key data k = (data k \<noteq> None)"

definition identify_message_type :: "frame \<Rightarrow> json" where
  "identify_message_type data =
     (if has_key data ''tick'' then JStr ''tick''
      else if has_key data ''proposal_open_contract'' then JStr ''contract_update''
      else if has_key data ''balance'' then JStr ''balance''
      else if has_key data ''authorize'' then JStr ''authorize''
      else if has_key data ''error'' then JStr ''error''
      else if has_key data ''ping'' \<or> has_key data ''pong'' then JStr ''ping_pong''
      else if has_key data ''website_status'' then JStr ''website_status''
      else if has_key data ''time'' then JStr ''server_time''
      else if has_key data ''buy'' \<or> has_key data ''sell'' \<or> has_key data ''proposal''
        then JStr ''trading''
      else (case data ''msg_type'' of Some v \<Rightarrow> v | None \<Rightarrow> JStr ''unknown''))"

text \<open>
  The classifier as the specification words it: a table of (keys, type) rows in priority order,
  the first row with a key present in the frame wins, then the generic tag, then unknown.
\<close>

definition priority_table :: "(string list \<times> string) list" where
  "priority_table =
     [([''tick''], ''tick''),
      ([''proposal_open_contract''], ''contract_update''),
      ([''balance''], ''balance''),
      ([''authorize''], ''authorize''),
      ([''error''], ''error''),
      ([''ping'', ''pong''], ''ping_pong''),
      ([''website_status''], ''website_status''),
      ([''time''], ''server_time''),
      ([''buy'', ''sell'', ''proposal''], ''trading'')]"

definition classify_first_match :: "frame \<Rightarrow> json" where
  "classify_first_match data =
     (case List.find (\<lambda>row. list_ex (has_key data) (fst row)) priority_table of
        Some row \<Rightarrow> JStr (snd row)
      | None \<Rightarrow> (case data ''msg_type'' of Some v \<Rightarrow> v | None \<Rightarrow> JStr ''unknown''))"

text \<open>Lists and objects are unhashable: using one as a dict key or set member raises.\<close>

fun hashable :: "json \<Rightarrow> bool" where
  "hashable (JArr _) = False"
| "hashable (JObj _) = False"
| "hashable _ = True"

fun is_ignored :: "json \<Rightarrow> string set \<Rightarrow> bool" where
  "is_ignored (JStr t) ignored = (t \<in> ignored)"
| "is_ignored _ ignored = False"

text \<open>
  The body of the \<open>try\<close> of \<open>_dispatch_message\<close>: the state (only the log changes) and the
  exception the body ends with, if any.
\<close>

definition dispatch_body :: "json \<Rightarrow> frame \<Rightarrow> MessageProcessor
    \<Rightarrow> MessageProcessor \<times> py_exception option" where
  "dispatch_body message_type data s =
     (if message_type = JStr ''tick'' \<and> tick_callback s \<noteq> None then
        (case data ''tick'' of None \<Rightarrow> (s, Some KeyError)
         | Some v \<Rightarrow> (s, the (tick_callback s) v))
      else if message_type = JStr ''contract_update'' \<and> contract_callback s \<noteq> None then
        (case data ''proposal_open_contract'' of None \<Rightarrow> (s, Some KeyError)
         | Some v \<Rightarrow> (s, the (contract_callback s) v))
      else if message_type = JStr ''balance'' \<and> balance_callback s \<noteq> None then
        (case data ''balance'' of None \<Rightarrow> (s, Some KeyError)
         | Some v \<Rightarrow> (s, the (balance_callback s) v))
      else if message_type = JStr ''error'' \<and> error_callback s \<noteq> None then
        (case data ''error'' of None \<Rightarrow> (s, Some KeyError)
         | Some (JObj kvs) \<Rightarrow>
             (let s = s\<lparr>error_log := error_log s @ [ApiErrorLogged]\<rparr>
              in (s, the (error_callback s) (JObj kvs)))
         | Some _ \<Rightarrow> (s, Some AttributeError))
      else if hashable message_type then (s, None)
      else (s, Some TypeError))"

definition dispatch_message :: "json \<Rightarrow> frame \<Rightarrow> MessageProcessor
    \<Rightarrow> MessageProcessor \<times> py_exception option" where
  "dispatch_message message_type data s =
     (case dispatch_body message_type data s of
        (s', None) \<Rightarrow> (s', None)
      | (s', Some e) \<Rightarrow> (s'\<lparr>error_log := error_log s' @ [CallbackErrorLogged e]\<rparr>, None))"

text \<open>The body of the \<open>try\<close> of \<open>_process_single_message\<close>.\<close>

definition process_body :: "frame \<Rightarrow> MessageProcessor
    \<Rightarrow> MessageProcessor \<times> py_exception option" where
  "process_body data s =
     (let message_type = identify_message_type data
      in if \<not> hashable message_type then (s, Some TypeError)
         else
           (let s = s\<lparr>message_stats := (message_stats s)(message_type \<mapsto>
                      (case message_stats s message_type of None \<Rightarrow> 0 | Some n \<Rightarrow> n) + 1)\<rparr>
            in if is_ignored message_type (ignored_message_types s) then (s, None)
               else dispatch_message message_type data s))"

text \<open>
  \<open>_process_single_message\<close>, the entry point the read pump calls: the new state and the
  exception that leaves the function, if any.
\<close>

definition process_single_message :: "frame \<Rightarrow> MessageProcessor
    \<Rightarrow> MessageProcessor \<times> py_exception option" where
  "process_single_message data s =
     (let s = s\<lparr>message_count := message_count s + 1\<rparr>
      in case process_body data s of
           (s', None) \<Rightarrow> (s', None)
         | (s', Some e) \<Rightarrow>
             (s'\<lparr>error_count := error_count s' + 1,
                 error_log := error_log s' @ [ProcessingErrorLogged e]\<rparr>, None))"

section \<open>Transport (connection/websocket_manager.py)\<close>

text \<open>
  A pending request is an \<open>asyncio.Future\<close> shared by the pending-request table and by the
  \<open>send_request\<close> call awaiting it, so futures live in a store (\<open>futures\<close>, addressed by
  position) and the table maps a correlation id to an address. The table is a Python dict,
  kept as an association list in insertion order. \<open>message_loop_running\<close> says that the pump
  task exists and is not done, \<open>disconnection_callback\<close> that a callback is registered. Three
  fields are not fields of the class: \<open>disconnection_callback_calls\<close> counts the invocations
  of that callback, \<open>forwarded_frames\<close> the frames handed on to the dispatcher, and
  \<open>assigned_req_ids\<close> lists the ids \<open>send_request\<close> computed, in order. The latency
  statistic is left out.
\<close>

datatype future = Pending | Resolved frame | Cancelled

datatype socket = Socket (closed: bool)

record WebSocketManager =
  is_connected :: bool
  is_authorized :: bool
  websocket :: "socket option"
  futures :: "future list"
  pending_requests :: "(int \<times> nat) list"
  total_messages_sent :: int
  total_messages_received :: int
  message_loop_running :: bool
  disconnection_callback :: bool
  disconnection_callback_calls :: nat
  forwarded_frames :: nat
  assigned_req_ids :: "int list"

definition new_manager :: WebSocketManager where
  "new_manager = \<lparr>is_connected = False, is_authorized = False, websocket = None,
     futures = [], pending_requests = [], total_messages_sent = 0,
     total_messages_received = 0, message_loop_running = False,
     disconnection_callback = False, disconnection_callback_calls = 0,
     forwarded_frames = 0, assigned_req_ids = []\<rparr>"

text \<open>\<open>connect\<close>: \<open>opened\<close> says whether \<open>websockets.connect\<close> succeeded.\<close>

definition connect :: "bool \<Rightarrow> WebSocketManager \<Rightarrow> WebSocketManager \<times> bool" where
  "connect opened s =
     (if opened
      then (s\<lparr>websocket := Some (Socket False), is_connected := True,
               message_loop_running := True\<rparr>, True)
      else (s\<lparr>is_connected := False\<rparr>, False))"

datatype send_outcome = Sent | SendConnectionClosed | SendFailed

text \<open>
  \<open>send_request\<close> up to the point where it awaits the future. \<open>clock\<close> is the value of
  \<open>int(time.time() * 1000000)\<close> read by this call. The result is the correlation id the call
  now waits on, or \<open>None\<close> when the call has already returned \<open>None\<close>.
\<close>

definition send_request_begin :: "int \<Rightarrow> send_outcome \<Rightarrow> WebSocketManager
    \<Rightarrow> WebSocketManager \<times> int option" where
  "send_request_begin clock outcome s =
     (if \<not> is_connected s \<or> websocket s = None then (s, None)
      else if closed (the (websocket s)) then (s\<lparr>is_connected := False\<rparr>, None)
      else
        (let req_id = clock + int (length (pending_requests s));
             s = s\<lparr>assigned_req_ids := assigned_req_ids s @ [req_id]\<rparr>;
             address = length (futures s);
             s = s\<lparr>futures := futures s @ [Pending]\<rparr>;
             s = s\<lparr>pending_requests := AList.update req_id address (pending_requests s)\<rparr>
         in case outcome of
              Sent \<Rightarrow> (s\<lparr>total_messages_sent := total_messages_sent s + 1\<rparr>, Some req_id)
            | SendConnectionClosed \<Rightarrow>
                (s\<lparr>is_connected := False,
                   pending_requests := AList.delete req_id (pending_requests s)\<rparr>, None)
            | SendFailed \<Rightarrow>
                (s\<lparr>pending_requests := AList.delete req_id (pending_requests s)\<rparr>, None)))"

text \<open>
  The end of \<open>send_request\<close> for the call waiting on \<open>req_id\<close> at \<open>address\<close>, reached when the
  future is resolved, the wait times out (\<open>wait_for\<close> then cancels the future) or the future
  is cancelled: what the call yields, and the \<open>finally\<close> clause removing the registration.
\<close>

datatype request_result = Answered frame | NoAnswer | CancelledErrorRaised

definition send_request_end :: "int \<Rightarrow> nat \<Rightarrow> WebSocketManager
    \<Rightarrow> WebSocketManager \<times> request_result" where
  "send_request_end req_id address s =
     (let s' = s\<lparr>pending_requests := AList.delete req_id (pending_requests s)\<rparr>
      in if address < length (futures s) then
           (case futures s ! address of
              Resolved response \<Rightarrow> (s', Answered response)
            | Pending \<Rightarrow> (s'\<lparr>futures := (futures s)[address := Cancelled]\<rparr>, NoAnswer)
            | Cancelled \<Rightarrow> (s', CancelledErrorRaised))
         else (s', NoAnswer))"

text \<open>The correlation id a frame carries, matched against the integer keys of the table.\<close>

definition req_id_of :: "frame \<Rightarrow> int option" where
  "req_id_of data =
     (case data ''req_id'' of
        Some (JNum r) \<Rightarrow> (if of_int \<lfloor>r\<rfloor> = r then Some \<lfloor>r\<rfloor> else None)
      | Some (JBool b) \<Rightarrow> Some (if b then 1 else 0)
      | _ \<Rightarrow> None)"

definition process_message :: "frame \<Rightarrow> WebSocketManager \<Rightarrow> WebSocketManager" where
  "process_message data s =
     (let s = s\<lparr>total_messages_received := total_messages_received s + 1\<rparr>
      in case (case req_id_of data of None \<Rightarrow> None
               | Some req_id \<Rightarrow> map_option (Pair req_id) (map_of (pending_requests s) req_id)) of
           Some (req_id, address) \<Rightarrow>
             (let s = s\<lparr>pending_requests := AList.delete req_id (pending_requests s)\<rparr>
              in if address < length (futures s) \<and> futures s ! address = Pending
                 then s\<lparr>futures := (futures s)[address := Resolved data]\<rparr> else s)
         | None \<Rightarrow>
             (case data ''req_id'' of
                Some (JArr _) \<Rightarrow> s
              | Some (JObj _) \<Rightarrow> s
              | _ \<Rightarrow> s\<lparr>forwarded_frames := Suc (forwarded_frames s)\<rparr>))"

text \<open>The \<open>finally\<close> clause of \<open>_message_loop\<close>.\<close>

definition message_loop_finally :: "WebSocketManager \<Rightarrow> WebSocketManager" where
  "message_loop_finally s =
     (let s = s\<lparr>message_loop_running := False\<rparr>
      in if is_connected s then
           (let s = s\<lparr>is_connected := False, is_authorized := False\<rparr>
            in if disconnection_callback s
               then s\<lparr>disconnection_callback_calls := Suc (disconnection_callback_calls s)\<rparr>
               else s)
         else s)"

text \<open>
  \<open>_message_loop\<close> over the outcomes of its successive \<open>recv\<close> calls; the end of the list stands
  for the cancellation of the task. A \<open>recv\<close> that raises \<open>ConnectionClosed\<close> leaves the socket
  closed.
\<close>

datatype recv_outcome = Received frame | RecvTimeout | RecvConnectionClosed | RecvError

definition pump_receive :: "frame \<Rightarrow> WebSocketManager \<Rightarrow> WebSocketManager" where
  "pump_receive data s =
     process_message data (s\<lparr>total_messages_received := total_messages_received s + 1\<rparr>)"

fun message_loop :: "recv_outcome list \<Rightarrow> WebSocketManager \<Rightarrow> WebSocketManager" where
  "message_loop [] s = message_loop_finally s"
| "message_loop (r # rest) s =
     (if is_connected s \<and> websocket s \<noteq> None \<and> \<not> closed (the (websocket s)) then
        (case r of
           Received data \<Rightarrow> message_loop rest (pump_receive data s)
         | RecvTimeout \<Rightarrow> message_loop rest s
         | RecvConnectionClosed \<Rightarrow> message_loop_finally (s\<lparr>websocket := Some (Socket True)\<rparr>)
         | RecvError \<Rightarrow> message_loop rest s)
      else message_loop_finally s)"

fun cancel_all :: "nat list \<Rightarrow> future list \<Rightarrow> future list" where
  "cancel_all [] fs = fs"
| "cancel_all (address # rest) fs =
     cancel_all rest
       (if address < length fs \<and> fs ! address = Pending then fs[address := Cancelled] else fs)"

text \<open>
  \<open>disconnect\<close>. The flag is cleared before the pump task is cancelled, so the pump's
  \<open>finally\<close> clause finds \<open>is_connected\<close> false and fires no notification.
\<close>

definition disconnect :: "WebSocketManager \<Rightarrow> WebSocketManager" where
  "disconnect s =
     (let s = s\<lparr>is_connected := False, is_authorized := False\<rparr>;
          s = (if message_loop_running s then message_loop_finally s else s);
          s = s\<lparr>futures := cancel_all (map snd (pending_requests s)) (futures s)\<rparr>;
          s = s\<lparr>pending_requests := []\<rparr>
      in s\<lparr>websocket := None\<rparr>)"

text \<open>
  Operations on one transport, interleaved as the event loop schedules them. A frame arrives
  only while the pump is reading; \<open>PumpStops\<close> is the pump finding the connection closed.
\<close>

datatype ws_event = CallConnect bool | CallSendRequest int send_outcome
  | EndSendRequest int nat | FrameArrives frame | PumpStops | CallDisconnect

fun ws_step :: "ws_event \<Rightarrow> WebSocketManager \<Rightarrow> WebSocketManager" where
  "ws_step (CallConnect opened) s = fst (connect opened s)"
| "ws_step (CallSendRequest clock outcome) s = fst (send_request_begin clock outcome s)"
| "ws_step (EndSendRequest req_id address) s = fst (send_request_end req_id address s)"
| "ws_step (FrameArrives data) s =
     (if is_connected s \<and> websocket s \<noteq> None \<and> \<not> closed (the (websocket s))
      then pump_receive data s else s)"
| "ws_step PumpStops s = message_loop [RecvConnectionClosed] s"
| "ws_step CallDisconnect s = disconnect s"

fun ws_run :: "ws_event list \<Rightarrow> WebSocketManager \<Rightarrow> WebSocketManager" where
  "ws_run [] s = s"
| "ws_run (e # es) s = ws_run es (ws_step e s)"

section \<open>Reconnection controller (connection/reconnection_system.py)\<close>

datatype ReconnectionContext = EMERGENCY_TICKS | PRIORITY_CONTRACTS | NORMAL_IDLE

record ReconnectionStrategy =
  strategy_context :: ReconnectionContext
  delays :: "real list"
  max_attempts :: int
  persistent_delays :: "real list"

definition get_delays_for_context :: "ReconnectionContext \<Rightarrow> real list" where
  "get_delays_for_context c =
     (if c = EMERGENCY_TICKS then [0.5, 1, 2, 3, 5, 8, 10]
      else if c = PRIORITY_CONTRACTS then [2, 4, 6, 10, 15, 20, 30]
      else [10, 10, 10, 10, 10, 10, 10])"

definition get_max_attempts_for_context :: "ReconnectionContext \<Rightarrow> int" where
  "get_max_attempts_for_context c =
     (if c = EMERGENCY_TICKS then 10 else if c = PRIORITY_CONTRACTS then 7 else 5)"

definition get_persistent_delays :: "ReconnectionContext \<Rightarrow> real list" where
  "get_persistent_delays c =
     (if c = EMERGENCY_TICKS then [10, 10, 10]
      else if c = PRIORITY_CONTRACTS then [10, 10, 10]
      else [10, 10, 10])"

definition new_strategy :: "ReconnectionContext \<Rightarrow> ReconnectionStrategy" where
  "new_strategy c = \<lparr>strategy_context = c, delays = get_delays_for_context c,
     max_attempts = get_max_attempts_for_context c,
     persistent_delays = get_persistent_delays c\<rparr>"

text \<open>Python list indexing: a negative index counts from the end, out of range raises.\<close>

definition py_index :: "'a list \<Rightarrow> int \<Rightarrow> py_exception + 'a" where
  "py_index xs i =
     (if 0 \<le> i \<and> i < int (length xs) then Inr (xs ! nat i)
      else if i < 0 \<and> - int (length xs) \<le> i then Inr (xs ! nat (int (length xs) + i))
      else Inl IndexError)"

definition get_delay :: "ReconnectionStrategy \<Rightarrow> int \<Rightarrow> py_exception + real" where
  "get_delay strategy attempt =
     py_index (delays strategy) (min (attempt - 1) (int (length (delays strategy)) - 1))"

definition get_persistent_delay :: "ReconnectionStrategy \<Rightarrow> int \<Rightarrow> py_exception + real" where
  "get_persistent_delay strategy cycle =
     py_index (persistent_delays strategy)
       (min (cycle - 1) (int (length (persistent_delays strategy)) - 1))"

text \<open>
  The collaborators. Each callback may be unregistered (\<open>None\<close>). A registered callback is a
  function of the number of reconnect attempts made so far in the process, which is the only
  clock the controller's own behaviour depends on; the two predicates return booleans, a
  reconnect attempt succeeds, fails or raises.
\<close>

datatype attempt_outcome = Reconnected | NotReconnected | ReconnectRaised string

record collaborators =
  has_tick_operations_callback :: "(nat \<Rightarrow> bool) option"
  has_active_contracts_callback :: "(nat \<Rightarrow> bool) option"
  reconnect_callback_fn :: "(nat \<Rightarrow> attempt_outcome) option"

text \<open>
  The controller. \<open>reconnect_calls\<close> counts the invocations of the reconnect callback and
  \<open>sleeps\<close> lists the delays slept, in order; the downtime statistics, which read the wall
  clock, are left out.
\<close>

record ReconnectionSystem =
  attempt_count :: int
  persistent_cycle :: int
  current_strategy :: "ReconnectionStrategy option"
  is_reconnecting :: bool
  is_persistent_mode :: bool
  total_reconnections :: int
  successful_reconnections :: int
  persistent_recoveries :: int
  reconnect_calls :: nat
  sleeps :: "real list"

definition new_reconnection_system :: ReconnectionSystem where
  "new_reconnection_system = \<lparr>attempt_count = 0, persistent_cycle = 0, current_strategy = None,
     is_reconnecting = False, is_persistent_mode = False, total_reconnections = 0,
     successful_reconnections = 0, persistent_recoveries = 0, reconnect_calls = 0,
     sleeps = []\<rparr>"

definition determine_context :: "collaborators \<Rightarrow> ReconnectionSystem \<Rightarrow> ReconnectionContext" where
  "determine_context env s =
     (if (case has_tick_operations_callback env of None \<Rightarrow> False
          | Some f \<Rightarrow> f (reconnect_calls s)) then EMERGENCY_TICKS
      else if (case has_active_contracts_callback env of None \<Rightarrow> False
               | Some f \<Rightarrow> f (reconnect_calls s)) then PRIORITY_CONTRACTS
      else NORMAL_IDLE)"

text \<open>
  \<open>_attempt_reconnection\<close>: the value returned (\<open>Inr\<close>) or the exception the callback raised
  (\<open>Inl\<close>), and the new state.
\<close>

definition attempt_reconnection :: "collaborators \<Rightarrow> ReconnectionSystem
    \<Rightarrow> (py_exception + bool) \<times> ReconnectionSystem" where
  "attempt_reconnection env s =
     (case reconnect_callback_fn env of
        None \<Rightarrow> (Inr False, s)
      | Some f \<Rightarrow>
          (let outcome = f (reconnect_calls s);
               s = s\<lparr>reconnect_calls := Suc (reconnect_calls s)\<rparr>
           in case outcome of
                Reconnected \<Rightarrow>
                  (Inr True,
                   if \<not> is_persistent_mode s
                   then s\<lparr>successful_reconnections := successful_reconnections s + 1\<rparr>
                   else s)
              | NotReconnected \<Rightarrow> (Inr False, s)
              | ReconnectRaised msg \<Rightarrow> (Inl (HandlerException msg), s)))"

function initial_reconnection_attempts :: "collaborators \<Rightarrow> ReconnectionSystem
    \<Rightarrow> (py_exception + bool) \<times> ReconnectionSystem" where
  "initial_reconnection_attempts env s =
     (case current_strategy s of
        None \<Rightarrow> (Inl AttributeError, s)
      | Some strategy \<Rightarrow>
          if attempt_count s < max_attempts strategy then
            (let s1 = s\<lparr>attempt_count := attempt_count s + 1\<rparr>
             in case get_delay strategy (attempt_count s1) of
                  Inl e \<Rightarrow> (Inl e, s1)
                | Inr delay \<Rightarrow>
                    (let s2 = s1\<lparr>sleeps := sleeps s1 @ [delay]\<rparr>
                     in case attempt_reconnection env s2 of
                          (Inl e, s3) \<Rightarrow> (Inl e, s3)
                        | (Inr ok, s3) \<Rightarrow>
                            if ok then (Inr True, s3)
                            else initial_reconnection_attempts env s3))
          else (Inr False, s))"
  by pat_completeness auto
termination
  by (relation "measure (\<lambda>(env, s). case current_strategy s of None \<Rightarrow> 0
        | Some strategy \<Rightarrow> nat (max_attempts strategy - attempt_count s))")
     (auto simp: attempt_reconnection_def Let_def
        split: option.splits attempt_outcome.splits if_splits)

partial_function (option) persistent_reconnection_loop :: "collaborators \<Rightarrow> ReconnectionContext
    \<Rightarrow> ReconnectionSystem \<Rightarrow> ((py_exception + bool) \<times> ReconnectionSystem) option" where
  "persistent_reconnection_loop env ctx s =
     (let s1 = s\<lparr>persistent_cycle := persistent_cycle s + 1\<rparr>
      in case current_strategy s1 of
           None \<Rightarrow> Some (Inl AttributeError, s1)
         | Some strategy \<Rightarrow>
             (case get_persistent_delay strategy (persistent_cycle s1) of
                Inl e \<Rightarrow> Some (Inl e, s1)
              | Inr delay \<Rightarrow>
                  (let s2 = s1\<lparr>sleeps := sleeps s1 @ [delay]\<rparr>
                   in case attempt_reconnection env s2 of
                        (Inl e, s3) \<Rightarrow> Some (Inl e, s3)
                      | (Inr ok, s3) \<Rightarrow>
                          if ok then
                            Some (Inr True,
                              s3\<lparr>successful_reconnections := successful_reconnections s3 + 1,
                                 persistent_recoveries := persistent_recoveries s3 + 1\<rparr>)
                          else if persistent_cycle s3 mod 3 = 0 then
                            (let new_context = determine_context env s3
                             in if new_context \<noteq> ctx
                                then persistent_reconnection_loop env new_context
                                       (s3\<lparr>current_strategy := Some (new_strategy new_context)\<rparr>)
                                else persistent_reconnection_loop env ctx s3)
                          else persistent_reconnection_loop env ctx s3)))"

text \<open>The \<open>finally\<close> clause of \<open>start_persistent_reconnection\<close>.\<close>

definition reconnection_finally :: "ReconnectionSystem \<Rightarrow> ReconnectionSystem" where
  "reconnection_finally s =
     s\<lparr>is_reconnecting := False, is_persistent_mode := False, current_strategy := None\<rparr>"

text \<open>
  \<open>start_persistent_reconnection\<close>: \<open>None\<close> when the call never returns, otherwise the boolean
  returned and the state left behind.
\<close>

definition start_persistent_reconnection :: "collaborators \<Rightarrow> ReconnectionSystem
    \<Rightarrow> (bool \<times> ReconnectionSystem) option" where
  "start_persistent_reconnection env s =
     (if is_reconnecting s then Some (False, s)
      else
        (let s = s\<lparr>is_reconnecting := True, attempt_count := 0, persistent_cycle := 0,
                   is_persistent_mode := False,
                   total_reconnections := total_reconnections s + 1\<rparr>;
             ctx = determine_context env s;
             s = s\<lparr>current_strategy := Some (new_strategy ctx)\<rparr>
         in case initial_reconnection_attempts env s of
              (Inl e, s1) \<Rightarrow> Some (False, reconnection_finally s1)
            | (Inr ok, s1) \<Rightarrow>
                if ok then Some (True, reconnection_finally s1)
                else
                  (case persistent_reconnection_loop env ctx (s1\<lparr>is_persistent_mode := True\<rparr>) of
                     None \<Rightarrow> None
                   | Some (Inl e, s2) \<Rightarrow> Some (False, reconnection_finally s2)
                   | Some (Inr ok, s2) \<Rightarrow> Some (ok, reconnection_finally s2))))"

section \<open>Position records (core/data_models.py)\<close>

text \<open>
  The fields of \<open>ContractInfo\<close> and \<open>AssetState\<close> that recovery and reconciliation read or
  write; time stamps and the fields only logged are left out. The field \<open>id\<close> is written
  \<open>id'\<close>.
\<close>

datatype ContractStatus = OPEN | WON | LOST | SOLD | FINISHED

record ContractInfo =
  id' :: string
  symbol :: string
  amount :: real
  status :: ContractStatus
  profit :: real
  payout :: real
  sell_price :: real
  forced_result :: bool

definition is_finished :: "ContractInfo \<Rightarrow> bool" where
  "is_finished c = (status c = WON \<or> status c = LOST \<or> status c = SOLD \<or> status c = FINISHED)"

text \<open>
  \<open>forced_total_loss\<close> is a dataclass field with default \<open>None\<close>, so the class itself carries
  the attribute: after \<open>delattr\<close> on the instance a read still finds \<open>None\<close> (and \<open>hasattr\<close> is
  still true), while a second \<open>delattr\<close> raises \<open>AttributeError\<close>.
\<close>

datatype forced_total_attr = InstanceAttr "real option" | AttrDeleted

record AssetState =
  asset_symbol :: string
  current_sequence :: int
  active_contracts :: "ContractInfo list"
  loss_accumulator :: real
  forced_total_loss :: forced_total_attr

section \<open>Recovery coordinator (connection/contract_recovery.py)\<close>

text \<open>
  What the venue's answer to a position-status query holds, as far as recovery reads it: the
  status string (absent or null: \<open>None\<close>) and two fields passed to \<open>float\<close>, each absent, a
  value \<open>float\<close> accepts, or one it rejects with \<open>ValueError\<close> or \<open>TypeError\<close>.
\<close>

datatype float_field = Absent | Float real | NotFloat

record contract_data =
  data_status :: "string option"
  data_buy_price :: float_field
  data_payout :: float_field

text \<open>
  One call of the request callback: it raises, returns nothing usable (\<open>None\<close> or an empty
  object), returns an object without the \<open>proposal_open_contract\<close> key, returns one whose value
  under that key is no object, or returns the contract data.
\<close>

datatype venue_reply = RequestRaises | NoResponse | ResponseWithoutContract
  | ResponseMalformed | ResponseData contract_data

record recovery_result =
  success :: bool
  result_profit :: real
  result_data :: "contract_data option"
  still_active :: bool

text \<open>
  The request callback answers by contract id and attempt number. The update callback receives
  the contract object itself, so whatever it writes to that object is seen by recovery: it
  returns the contract as it leaves it, and the exception it raised, if any.
  \<open>recovery_error_log\<close> is not a field of the class: it lists the errors logged for a failing
  update callback.
\<close>

record ContractRecovery =
  monitored_contracts :: "(string \<times> ContractInfo) list"
  send_request_callback :: "(string \<Rightarrow> nat \<Rightarrow> venue_reply) option"
  contract_update_callback ::
    "(ContractInfo \<Rightarrow> contract_data option \<Rightarrow> ContractInfo \<times> py_exception option) option"
  max_recovery_attempts :: int
  total_recoveries_attempted :: int
  successful_recoveries :: int
  failed_recoveries :: int
  contracts_forced_as_loss :: int
  recovery_error_log :: "log_entry list"

definition new_recovery :: ContractRecovery where
  "new_recovery = \<lparr>monitored_contracts = [], send_request_callback = None,
     contract_update_callback = None, max_recovery_attempts = 3,
     total_recoveries_attempted = 0, successful_recoveries = 0, failed_recoveries = 0,
     contracts_forced_as_loss = 0, recovery_error_log = []\<rparr>"

text \<open>\<open>backup_state_before_disconnection\<close>: the snapshot of the positions not yet finished.\<close>

fun backup_contracts :: "ContractInfo list \<Rightarrow> (string \<times> ContractInfo) list
    \<Rightarrow> (string \<times> ContractInfo) list" where
  "backup_contracts [] monitored = monitored"
| "backup_contracts (c # cs) monitored =
     backup_contracts cs
       (if \<not> is_finished c then AList.update (id' c) c monitored else monitored)"

definition backup_state_before_disconnection :: "(string \<times> ContractInfo list) list
    \<Rightarrow> ContractRecovery \<Rightarrow> ContractRecovery" where
  "backup_state_before_disconnection active s =
     s\<lparr>monitored_contracts := backup_contracts (concat (map snd active)) []\<rparr>"

definition to_float :: "float_field \<Rightarrow> real \<Rightarrow> real option" where
  "to_float f dflt = (case f of Absent \<Rightarrow> Some dflt | Float x \<Rightarrow> Some x | NotFloat \<Rightarrow> None)"

definition calculate_contract_profit :: "ContractInfo \<Rightarrow> contract_data \<Rightarrow> real" where
  "calculate_contract_profit contract cd =
     (case to_float (data_buy_price cd) (amount contract) of
        None \<Rightarrow> - amount contract
      | Some buy_price \<Rightarrow>
          if data_status cd = Some ''won'' then
            (case to_float (data_payout cd) 0 of
               None \<Rightarrow> - amount contract
             | Some payout_value \<Rightarrow> payout_value - buy_price)
          else - buy_price)"

text \<open>
  The \<open>for attempt in range(max_recovery_attempts)\<close> loop of \<open>_recover_single_contract\<close> over
  the attempt numbers still to run, followed by the code after the loop. The sleeps between
  attempts change no state and are left out.
\<close>

fun recover_attempts :: "nat list \<Rightarrow> ContractInfo \<Rightarrow> ContractRecovery
    \<Rightarrow> ContractInfo \<times> ContractRecovery \<times> recovery_result" where
  "recover_attempts [] contract s =
     (contract, s\<lparr>failed_recoveries := failed_recoveries s + 1\<rparr>,
      \<lparr>success = False, result_profit = 0, result_data = None, still_active = False\<rparr>)"
| "recover_attempts (attempt # rest) contract s =
     (case send_request_callback s of
        None \<Rightarrow> recover_attempts [] contract s
      | Some send \<Rightarrow>
          (case send (id' contract) attempt of
             ResponseData cd \<Rightarrow>
               if data_status cd = Some ''sold'' \<or> data_status cd = Some ''won''
                  \<or> data_status cd = Some ''lost'' then
                 (let p = calculate_contract_profit contract cd;
                      contract = contract\<lparr>status := (if p > 0 then WON else LOST), profit := p\<rparr>
                  in (contract, s\<lparr>successful_recoveries := successful_recoveries s + 1\<rparr>,
                      \<lparr>success = True, result_profit = p, result_data = Some cd,
                       still_active = False\<rparr>))
               else if data_status cd = Some ''open'' then
                 (contract, s,
                  \<lparr>success = True, result_profit = 0, result_data = Some cd,
                   still_active = True\<rparr>)
               else recover_attempts rest contract s
           | _ \<Rightarrow> recover_attempts rest contract s))"

definition recover_single_contract :: "ContractInfo \<Rightarrow> ContractRecovery
    \<Rightarrow> ContractInfo \<times> ContractRecovery \<times> recovery_result" where
  "recover_single_contract contract s =
     recover_attempts [0..<nat (max_recovery_attempts s)] contract
       (s\<lparr>total_recoveries_attempted := total_recoveries_attempted s + 1\<rparr>)"

record recovery_report =
  total_contracts :: nat
  recovered :: int
  failed :: int
  total_profit :: real

text \<open>
  The loop of \<open>recover_lost_contracts\<close> over the items of the snapshot. The contracts are
  updated in place, so the loop yields the items as they are afterwards.
\<close>

fun recover_items :: "(string \<times> ContractInfo) list \<Rightarrow> ContractRecovery \<Rightarrow> recovery_report
    \<Rightarrow> (string \<times> ContractInfo) list \<times> ContractRecovery \<times> recovery_report" where
  "recover_items [] s r = ([], s, r)"
| "recover_items ((contract_id, contract) # rest) s r =
     (case recover_single_contract contract s of
        (contract1, s1, res) \<Rightarrow>
          if success res then
            (let r1 = r\<lparr>recovered := recovered r + 1,
                        total_profit := total_profit r + result_profit res\<rparr>
             in case contract_update_callback s1 of
                  None \<Rightarrow>
                    (case recover_items rest s1 r1 of
                       (items, s', r') \<Rightarrow> ((contract_id, contract1) # items, s', r'))
                | Some callback \<Rightarrow>
                    (case callback contract1 (result_data res) of
                       (contract2, raised) \<Rightarrow>
                         (let s2 = (case raised of None \<Rightarrow> s1
                                    | Some e \<Rightarrow> s1\<lparr>recovery_error_log :=
                                        recovery_error_log s1 @ [CallbackErrorLogged e]\<rparr>)
                          in case recover_items rest s2 r1 of
                               (items, s', r') \<Rightarrow> ((contract_id, contract2) # items, s', r'))))
          else
            (let r1 = r\<lparr>failed := failed r + 1\<rparr>;
                 original_amount = amount contract1;
                 contract2 = contract1\<lparr>status := FINISHED, profit := - original_amount\<rparr>;
                 r2 = r1\<lparr>total_profit := total_profit r1 - original_amount\<rparr>;
                 s2 = s1\<lparr>contracts_forced_as_loss := contracts_forced_as_loss s1 + 1\<rparr>
             in case recover_items rest s2 r2 of
                  (items, s', r') \<Rightarrow> ((contract_id, contract2) # items, s', r')))"

definition recover_lost_contracts :: "ContractRecovery \<Rightarrow> ContractRecovery \<times> recovery_report" where
  "recover_lost_contracts s =
     (if monitored_contracts s = [] then
        (s, \<lparr>total_contracts = 0, recovered = 0, failed = 0, total_profit = 0\<rparr>)
      else
        (case recover_items (monitored_contracts s) s
                \<lparr>total_contracts = 0, recovered = 0, failed = 0, total_profit = 0\<rparr> of
           (items, s', r) \<Rightarrow>
             (s'\<lparr>monitored_contracts := items\<rparr>, r\<lparr>total_contracts := length items\<rparr>)))"

text \<open>
  What the procedure treats as no usable response: the callback raised, returned nothing, returned
  an object without contract data, or returned contract data whose status is none of sold, won,
  lost and open. \<open>no_usable_response\<close> says that every attempt the procedure makes for a
  contract ends that way (or that no request callback is registered at all).
\<close>

fun unusable :: "venue_reply \<Rightarrow> bool" where
  "unusable (ResponseData cd) =
     (data_status cd \<noteq> Some ''sold'' \<and> data_status cd \<noteq> Some ''won''
      \<and> data_status cd \<noteq> Some ''lost'' \<and> data_status cd \<noteq> Some ''open'')"
| "unusable _ = True"

definition no_usable_response :: "ContractRecovery \<Rightarrow> ContractInfo \<Rightarrow> bool" where
  "no_usable_response s c =
     (case send_request_callback s of
        None \<Rightarrow> True
      | Some send \<Rightarrow>
          list_all (\<lambda>attempt. unusable (send (id' c) attempt))
            [0..<nat (max_recovery_attempts s)])"

text \<open>
  What recovery obtains for one snapshotted position, and what that position adds to the total
  profit of the report: the profit obtained when recovery succeeds, minus the amount when it
  fails.
\<close>

definition recovery_outcome :: "ContractRecovery \<Rightarrow> ContractInfo \<Rightarrow> recovery_result" where
  "recovery_outcome s c = snd (snd (recover_single_contract c s))"

definition profit_contribution :: "ContractRecovery \<Rightarrow> ContractInfo \<Rightarrow> real" where
  "profit_contribution s c =
     (if success (recovery_outcome s c) then result_profit (recovery_outcome s c)
      else - amount c)"

section \<open>Reconciliation in the orchestrator (core/bot.py)\<close>

text \<open>
  The risk manager the orchestrator was configured with. \<open>MartingaleRisk\<close> carries its
  \<open>max_sequence\<close>; the amounts it computes play no part below.
\<close>

datatype risk_manager_kind = MartingaleRisk (max_sequence: int) | FixedAmountRisk

record TradingBot =
  balance :: real
  session_current_balance :: real
  asset_states :: "(string \<times> AssetState) list"
  DUAL_ENTRY :: bool
  risk_manager :: risk_manager_kind

fun find_contract :: "ContractInfo list \<Rightarrow> string \<Rightarrow> nat option" where
  "find_contract [] cid = None"
| "find_contract (c # cs) cid =
     (if id' c = cid then Some 0 else map_option Suc (find_contract cs cid))"

text \<open>
  The two nested loops at the head of \<open>_process_contract_recovery_update\<close>: the position of
  the first asset holding a contract with that id, and of the first such contract in it.
\<close>

fun find_target :: "(string \<times> AssetState) list \<Rightarrow> string \<Rightarrow> (nat \<times> nat) option" where
  "find_target [] cid = None"
| "find_target ((k, a) # rest) cid =
     (case find_contract (active_contracts a) cid of
        Some j \<Rightarrow> Some (0, j)
      | None \<Rightarrow> map_option (\<lambda>(i, j). (Suc i, j)) (find_target rest cid))"

definition all_contracts_finished :: "AssetState \<Rightarrow> bool" where
  "all_contracts_finished a = list_all is_finished (active_contracts a)"

definition set_asset :: "nat \<Rightarrow> AssetState \<Rightarrow> TradingBot \<Rightarrow> TradingBot" where
  "set_asset i a s = s\<lparr>asset_states := (asset_states s)[i := (fst (asset_states s ! i), a)]\<rparr>"

text \<open>
  \<open>_correct_results_after_recovery\<close> on the asset at position \<open>i\<close>: the state left behind and
  the exception raised, if any. The \<open>hasattr\<close> guard never returns early (see above).
\<close>

definition correct_results_after_recovery :: "nat \<Rightarrow> TradingBot
    \<Rightarrow> TradingBot \<times> py_exception option" where
  "correct_results_after_recovery i s =
     (let asset_state = snd (asset_states s ! i);
          real_total = sum_list (map profit (active_contracts asset_state))
      in case forced_total_loss asset_state of
           AttrDeleted \<Rightarrow> (s, Some AttributeError)
         | InstanceAttr None \<Rightarrow>
             (set_asset i (asset_state\<lparr>forced_total_loss := AttrDeleted\<rparr>) s, Some TypeError)
         | InstanceAttr (Some forced_total) \<Rightarrow>
             (let asset_state = asset_state\<lparr>forced_total_loss := AttrDeleted\<rparr>;
                  balance_correction = real_total - forced_total;
                  s = s\<lparr>balance := balance s + balance_correction\<rparr>;
                  s = s\<lparr>session_current_balance := balance s\<rparr>;
                  operation_won =
                    (if DUAL_ENTRY s
                     then list_ex (\<lambda>c. profit c > 0) (active_contracts asset_state)
                     else real_total > 0);
                  asset_state =
                    (if operation_won \<and> current_sequence asset_state > 1
                     then asset_state\<lparr>current_sequence := 1, loss_accumulator := 0\<rparr>
                     else asset_state)
              in (set_asset i asset_state s, None)))"

definition process_contract_recovery_update :: "ContractInfo \<Rightarrow> TradingBot
    \<Rightarrow> TradingBot \<times> py_exception option" where
  "process_contract_recovery_update contract s =
     (case find_target (asset_states s) (id' contract) of
        None \<Rightarrow> (s, None)
      | Some (i, j) \<Rightarrow>
          (let target_asset_state = snd (asset_states s ! i);
               original_contract = active_contracts target_asset_state ! j;
               was_forced_loss = forced_result original_contract;
               original_contract = original_contract\<lparr>status := status contract,
                 profit := profit contract, payout := payout contract,
                 sell_price := sell_price contract, forced_result := False\<rparr>;
               target_asset_state = target_asset_state\<lparr>active_contracts :=
                 (active_contracts target_asset_state)[j := original_contract]\<rparr>;
               s = set_asset i target_asset_state s
           in if all_contracts_finished target_asset_state \<and> was_forced_loss
              then correct_results_after_recovery i s
              else (s, None)))"

text \<open>
  The path that forces a position and books the forced result (\<open>_force_contract_as_loss\<close>,
  \<open>_process_sequence_result\<close>, \<open>_process_operation_result\<close>, and the risk manager's
  \<open>process_operation_result\<close>, \<open>reset_sequence\<close> and \<open>advance_sequence\<close>). Session
  statistics, the cooldown and the per-asset counters of \<open>FixedAmountRisk\<close> write other fields
  and are left out. \<open>FixedAmountRisk.process_operation_result\<close> returns nothing, which the
  caller reads as false.
\<close>

definition reset_sequence :: "AssetState \<Rightarrow> AssetState" where
  "reset_sequence a = a\<lparr>current_sequence := 1, loss_accumulator := 0\<rparr>"

definition advance_sequence :: "AssetState \<Rightarrow> real \<Rightarrow> AssetState" where
  "advance_sequence a loss_amount =
     a\<lparr>current_sequence := current_sequence a + 1,
       loss_accumulator := loss_accumulator a + loss_amount\<rparr>"

definition risk_process_operation_result :: "risk_manager_kind \<Rightarrow> AssetState \<Rightarrow> bool \<Rightarrow> real
    \<Rightarrow> AssetState \<times> bool" where
  "risk_process_operation_result rm a won p =
     (case rm of
        MartingaleRisk max_seq \<Rightarrow>
          if won then (reset_sequence a, True)
          else if current_sequence a < max_seq then (advance_sequence a p, False)
          else (reset_sequence a, True)
      | FixedAmountRisk \<Rightarrow> (reset_sequence a, False))"

definition process_operation_result :: "nat \<Rightarrow> bool \<Rightarrow> real \<Rightarrow> TradingBot \<Rightarrow> TradingBot" where
  "process_operation_result i won p s =
     (let asset_state = fst (risk_process_operation_result (risk_manager s)
                              (snd (asset_states s ! i)) won p);
          s = set_asset i asset_state s;
          s = s\<lparr>balance := balance s + p\<rparr>
      in s\<lparr>session_current_balance := balance s\<rparr>)"

definition clear_finished_contracts :: "AssetState \<Rightarrow> AssetState" where
  "clear_finished_contracts a =
     a\<lparr>active_contracts := filter (\<lambda>c. \<not> is_finished c) (active_contracts a)\<rparr>"

definition process_sequence_result :: "nat \<Rightarrow> TradingBot \<Rightarrow> TradingBot" where
  "process_sequence_result i s =
     (let asset_state = snd (asset_states s ! i)
      in if active_contracts asset_state = [] then s
         else
           (let total = sum_list (map profit (active_contracts asset_state));
                won = (if DUAL_ENTRY s
                       then list_ex (\<lambda>c. profit c > 0) (active_contracts asset_state)
                       else total > 0);
                s = process_operation_result i won total s
            in set_asset i (clear_finished_contracts (snd (asset_states s ! i))) s))"

text \<open>
  \<open>_force_contract_as_loss\<close> on the contract at position \<open>j\<close> of the asset at position \<open>i\<close>.
\<close>

definition force_contract_as_loss :: "nat \<Rightarrow> nat \<Rightarrow> TradingBot \<Rightarrow> TradingBot" where
  "force_contract_as_loss i j s =
     (let asset_state = snd (asset_states s ! i);
          contract = active_contracts asset_state ! j;
          contract = contract\<lparr>forced_result := True, status := LOST,
                       profit := - amount contract\<rparr>;
          asset_state = asset_state\<lparr>active_contracts :=
                          (active_contracts asset_state)[j := contract]\<rparr>;
          s = set_asset i asset_state s
      in if all_contracts_finished asset_state then
           (let asset_state = asset_state\<lparr>forced_total_loss :=
                  InstanceAttr (Some (sum_list (map profit (active_contracts asset_state))))\<rparr>;
                s = set_asset i asset_state s
            in process_sequence_result i s)
         else s)"

section \<open>Concrete inputs\<close>

text \<open>Metrics that are perfect but for the uptime.\<close>

definition degrading_metrics :: "real \<Rightarrow> ConnectionMetrics" where
  "degrading_metrics uptime = perfect_metrics\<lparr>uptime_percentage := uptime\<rparr>"

text \<open>A dispatcher whose tick handler raises on every call.\<close>

definition raising_tick_processor :: MessageProcessor where
  "raising_tick_processor =
     new_processor\<lparr>tick_callback := Some (\<lambda>v. Some (HandlerException ''boom''))\<rparr>"

text \<open>
  A transport that is connected, with a disconnection callback registered; the response frame
  to a correlation id; and a schedule in which four requests read the strictly increasing clock
  values 10, 11, 12 and 13, the first two being answered before the fourth is sent while the
  third is still outstanding.
\<close>

definition connected_manager :: WebSocketManager where
  "connected_manager = fst (connect True (new_manager\<lparr>disconnection_callback := True\<rparr>))"

definition response_to :: "int \<Rightarrow> frame" where
  "response_to req_id = [''req_id'' \<mapsto> JNum (of_int req_id)]"

definition colliding_id_schedule :: "ws_event list" where
  "colliding_id_schedule =
     [CallSendRequest 10 Sent, CallSendRequest 11 Sent, CallSendRequest 12 Sent,
      FrameArrives (response_to 10), EndSendRequest 10 0,
      FrameArrives (response_to 12), EndSendRequest 12 1,
      CallSendRequest 13 Sent]"

text \<open>
  A reconnect callback that fails until its \<open>M\<close>-th invocation, with no context predicate
  registered.
\<close>

definition stub_succeeding_on :: "nat \<Rightarrow> collaborators" where
  "stub_succeeding_on M = \<lparr>has_tick_operations_callback = None,
     has_active_contracts_callback = None,
     reconnect_callback_fn = Some (\<lambda>k. if Suc k < M then NotReconnected else Reconnected)\<rparr>"

text \<open>
  A reconnect callback whose first invocation raises and whose later invocations succeed.
\<close>

definition stub_raising_once :: collaborators where
  "stub_raising_once = \<lparr>has_tick_operations_callback = None,
     has_active_contracts_callback = None,
     reconnect_callback_fn =
       Some (\<lambda>k. if k = 0 then ReconnectRaised ''boom'' else Reconnected)\<rparr>"

text \<open>
  A snapshot of one open position of amount 1.00, with a venue that never answers, and with a
  venue that answers the second query with a contract still open.
\<close>

definition open_position :: ContractInfo where
  "open_position = \<lparr>id' = ''c1'', symbol = ''R_100'', amount = 1, status = OPEN, profit = 0,
     payout = 0, sell_price = 0, forced_result = False\<rparr>"

definition unreachable_venue_recovery :: ContractRecovery where
  "unreachable_venue_recovery =
     new_recovery\<lparr>monitored_contracts := [(''c1'', open_position)],
        send_request_callback := Some (\<lambda>contract_id attempt. NoResponse)\<rparr>"

definition still_open_data :: contract_data where
  "still_open_data = \<lparr>data_status = Some ''open'', data_buy_price = Float 1,
     data_payout = Absent\<rparr>"

definition still_open_recovery :: ContractRecovery where
  "still_open_recovery =
     new_recovery\<lparr>monitored_contracts := [(''c1'', open_position)],
        send_request_callback := Some (\<lambda>contract_id attempt.
          if attempt = 0 then NoResponse else ResponseData still_open_data)\<rparr>"

text \<open>
  The ledger with a single open position of amount 1.00 at sequence level 1 and balance 100,
  under a martingale of at most 2 levels; and the confirmed result of that position, which
  arrives after it has been forced: won, payout 1.95, profit 0.95.
\<close>

definition bot_with_open_position :: TradingBot where
  "bot_with_open_position = \<lparr>balance = 100, session_current_balance = 100,
     asset_states = [(''R_100'', \<lparr>asset_symbol = ''R_100'', current_sequence = 1,
        active_contracts = [open_position], loss_accumulator = 0,
        forced_total_loss = InstanceAttr None\<rparr>)],
     DUAL_ENTRY = False, risk_manager = MartingaleRisk 2\<rparr>"

definition confirmed_win :: ContractInfo where
  "confirmed_win = \<lparr>id' = ''c1'', symbol = ''R_100'', amount = 1, status = WON,
     profit = 0.95, payout = 1.95, sell_price = 0, forced_result = False\<rparr>"

section \<open>Health monitor: quality score and forced reconnection\<close>

text \<open>
  C9. The score is a function of the metrics alone; perfect metrics score 100 and are EXCELLENT,
  and the same metrics with an uptime of 80 percent score exactly 70 and are GOOD.
\<close>

theorem quality_score_reference_points:
  "quality_score perfect_metrics = 100
   \<and> evaluate_connection_quality perfect_metrics = EXCELLENT
   \<and> quality_score (perfect_metrics\<lparr>uptime_percentage := 80\<rparr>) = 70
   \<and> evaluate_connection_quality (perfect_metrics\<lparr>uptime_percentage := 80\<rparr>) = GOOD"
  by (simp add: quality_score_def evaluate_connection_quality_def quality_band_def
      perfect_metrics_def)

text \<open>
  One sample invokes the forced-reconnect callback only if it changes the quality into CRITICAL
  while the counter of consecutive changes into a degraded band has already reached 2.
\<close>

lemma iteration_fire:
  assumes "forced_reconnects (monitoring_iteration m s) \<noteq> forced_reconnects s"
  shows "evaluate_connection_quality m = CRITICAL \<and> current_quality s \<noteq> CRITICAL
         \<and> 2 \<le> consecutive_poor_checks s \<and> reconnect_callback s"
  using assms
  by (auto simp: monitoring_iteration_def handle_quality_change_def Let_def split: if_splits)

text \<open>A sample that leaves the quality unchanged changes nothing at all.\<close>

lemma unchanged_quality_changes_nothing:
  "evaluate_connection_quality m = current_quality s \<Longrightarrow> monitoring_iteration m s = s"
  by (simp add: monitoring_iteration_def)

lemma unchanged_quality_loop:
  "evaluate_connection_quality m = current_quality s
   \<Longrightarrow> monitoring_loop (replicate n m) s = s"
  by (induction n) (simp_all add: unchanged_quality_changes_nothing)

lemma sustained_critical_never_fires:
  "forced_reconnects (monitoring_loop (replicate n (degrading_metrics 50)) (new_monitor cb)) = 0"
proof (cases n)
  case 0
  then show ?thesis by (simp add: new_monitor_def)
next
  case (Suc k)
  let ?s1 = "monitoring_iteration (degrading_metrics 50) (new_monitor cb)"
  have q: "evaluate_connection_quality (degrading_metrics 50) = CRITICAL"
    by (simp add: degrading_metrics_def perfect_metrics_def evaluate_connection_quality_def
        quality_score_def quality_band_def)
  have s1: "current_quality ?s1 = CRITICAL" "forced_reconnects ?s1 = 0"
    by (simp_all add: q monitoring_iteration_def handle_quality_change_def new_monitor_def Let_def)
  have "monitoring_loop (replicate k (degrading_metrics 50)) ?s1 = ?s1"
    using unchanged_quality_loop[of "degrading_metrics 50" ?s1 k] q s1(1) by simp
  then show ?thesis using Suc s1(2) by simp
qed

text \<open>
  C4. The claim says the forced-reconnect callback is invoked only after three consecutive
  CRITICAL samples, and that degrading transitions into other bands never cause it. The
  monitor counts quality changes, not samples: the counter is advanced only when a sample
  changes the quality, and a change into FAIR or POOR advances it as a change into CRITICAL
  does. So the samples FAIR, POOR, CRITICAL invoke the callback on the very first CRITICAL
  sample, the two non-CRITICAL transitions having supplied the count, while CRITICAL sustained
  for any number of consecutive samples never invokes it.
\<close>

theorem forced_reconnect_counts_changes_not_samples:
  "map evaluate_connection_quality [degrading_metrics 70, degrading_metrics 60, degrading_metrics 50]
     = [FAIR, POOR, CRITICAL]
   \<and> forced_reconnects (monitoring_loop [degrading_metrics 70, degrading_metrics 60] (new_monitor True)) = 0
   \<and> forced_reconnects (monitoring_loop
        [degrading_metrics 70, degrading_metrics 60, degrading_metrics 50] (new_monitor True)) = 1
   \<and> evaluate_connection_quality (degrading_metrics 50) = CRITICAL
   \<and> forced_reconnects (monitoring_loop (replicate n (degrading_metrics 50)) (new_monitor True)) = 0"
proof -
  have "forced_reconnects (monitoring_loop (replicate n (degrading_metrics 50)) (new_monitor True)) = 0"
    by (rule sustained_critical_never_fires)
  then show ?thesis
    by (simp add: degrading_metrics_def perfect_metrics_def evaluate_connection_quality_def
        quality_score_def quality_band_def monitoring_iteration_def handle_quality_change_def
        new_monitor_def Let_def)
qed

section \<open>Message dispatcher: classification and handler failures\<close>

text \<open>
  C7. For every frame the classifier returns the type of the first row of the priority table
  (tick, position-status payload, balance, authorization result, error, ping or pong,
  service status, server time, trade echo) that has a key present in the frame; when no row
  matches it returns the frame's generic \<open>msg_type\<close> tag, and \<open>unknown\<close> when there is none. A
  frame matching an earlier row is therefore never given the type of a later one.
\<close>

theorem classifier_is_first_match:
  "identify_message_type data = classify_first_match data"
  by (simp add: identify_message_type_def classify_first_match_def priority_table_def)

lemma dispatch_message_no_count:
  "error_count (fst (dispatch_message mt data s)) = error_count s
   \<and> snd (dispatch_message mt data s) = None"
  by (auto simp: dispatch_message_def dispatch_body_def Let_def
      split: option.splits json.splits prod.splits)

text \<open>
  Whatever the handlers do, nothing leaves the entry point, and the error counter grows only
  when the classified type is unhashable: a handler's exception is never counted.
\<close>

lemma error_count_ignores_handlers:
  "snd (process_single_message data s) = None
   \<and> error_count (fst (process_single_message data s))
       = error_count s + (if hashable (identify_message_type data) then 0 else 1)"
proof -
  define s0 where "s0 = s\<lparr>message_count := message_count s + 1\<rparr>"
  define mt where "mt = identify_message_type data"
  define s1 where "s1 = s0\<lparr>message_stats := (message_stats s0)(mt \<mapsto>
                      (case message_stats s0 mt of None \<Rightarrow> 0 | Some n \<Rightarrow> n) + 1)\<rparr>"
  have ec: "error_count s1 = error_count s" by (simp add: s1_def s0_def)
  obtain s2 where d: "dispatch_message mt data s1 = (s2, None)" and e2: "error_count s2 = error_count s1"
    using dispatch_message_no_count[of mt data s1] by (cases "dispatch_message mt data s1") auto
  have body: "process_body data s0 =
     (if \<not> hashable mt then (s0, Some TypeError)
      else if is_ignored mt (ignored_message_types s1) then (s1, None) else (s2, None))"
    by (simp add: process_body_def Let_def mt_def[symmetric] s1_def[symmetric] d)
  show ?thesis
    unfolding process_single_message_def Let_def s0_def[symmetric] body mt_def[symmetric]
    using ec e2 by (auto simp: s0_def)
qed

text \<open>
  C8. The claim says a handler's exception is caught, logged, counted in the error counter and
  not propagated. On a tick frame whose registered handler raises, the exception is caught and
  logged and nothing is propagated, but the error counter stays at 0.
\<close>

theorem handler_exception_not_counted:
  "snd (process_single_message [''tick'' \<mapsto> JObj []] raising_tick_processor) = None
   \<and> error_log (fst (process_single_message [''tick'' \<mapsto> JObj []] raising_tick_processor))
       = [CallbackErrorLogged (HandlerException ''boom'')]
   \<and> error_count (fst (process_single_message [''tick'' \<mapsto> JObj []] raising_tick_processor)) = 0"
  by (simp add: process_single_message_def process_body_def dispatch_message_def
      dispatch_body_def identify_message_type_def has_key_def raising_tick_processor_def
      new_processor_def Let_def)

section \<open>Transport: pending requests and correlation ids\<close>

lemma cancel_all_length: "length (cancel_all as fs) = length fs"
  by (induction as arbitrary: fs) simp_all

lemma cancel_all_keeps_done:
  "a < length fs \<Longrightarrow> fs ! a \<noteq> Pending \<Longrightarrow> cancel_all as fs ! a \<noteq> Pending"
  by (induction as arbitrary: fs) (auto simp: nth_list_update)

lemma cancel_all_resolves:
  "a \<in> set as \<Longrightarrow> a < length fs \<Longrightarrow> cancel_all as fs ! a \<noteq> Pending"
proof (induction as arbitrary: fs)
  case Nil
  then show ?case by simp
next
  case (Cons b as)
  show ?case
  proof (cases "a = b")
    case True
    define fs' where "fs' = (if b < length fs \<and> fs ! b = Pending then fs[b := Cancelled] else fs)"
    have "b < length fs'" and "fs' ! b \<noteq> Pending"
      using Cons.prems(2) True by (auto simp: fs'_def)
    then have "cancel_all as fs' ! b \<noteq> Pending" by (rule cancel_all_keeps_done)
    then show ?thesis using True by (simp add: fs'_def)
  next
    case False
    then show ?thesis using Cons by auto
  qed
qed

text \<open>
  An explicit \<open>disconnect\<close> empties the table and leaves none of its futures pending.
\<close>

lemma disconnect_resolves_all_pending:
  "pending_requests (disconnect s) = []
   \<and> (\<forall>a \<in> snd ` set (pending_requests s). a < length (futures s)
        \<longrightarrow> futures (disconnect s) ! a \<noteq> Pending)"
proof -
  have "futures (disconnect s) = cancel_all (map snd (pending_requests s)) (futures s)"
    and "pending_requests (disconnect s) = []"
    by (simp_all add: disconnect_def message_loop_finally_def Let_def)
  then show ?thesis using cancel_all_resolves[of _ "map snd (pending_requests s)" "futures s"]
    by auto
qed

text \<open>
  C3. The claim says every way of disconnecting resolves all pending request slots as part of
  the disconnect handling. When the read pump finds the connection closed, it marks the
  transport disconnected and stops, but the pending-request table and every future in it are
  left exactly as they were: the requests stay pending until each one's own timeout.
\<close>

theorem pump_close_leaves_requests_pending:
  assumes "is_connected s" and "websocket s = Some (Socket False)"
  shows "pending_requests (message_loop [RecvConnectionClosed] s) = pending_requests s
         \<and> futures (message_loop [RecvConnectionClosed] s) = futures s
         \<and> \<not> is_connected (message_loop [RecvConnectionClosed] s)"
  using assms by (simp add: message_loop_finally_def Let_def)

theorem pump_close_leaves_requests_pending_witness:
  "pending_requests (ws_run [CallSendRequest 10 Sent, PumpStops] connected_manager) = [(10, 0)]
   \<and> futures (ws_run [CallSendRequest 10 Sent, PumpStops] connected_manager) = [Pending]
   \<and> \<not> is_connected (ws_run [CallSendRequest 10 Sent, PumpStops] connected_manager)
   \<and> disconnection_callback_calls (ws_run [CallSendRequest 10 Sent, PumpStops] connected_manager) = 1"
proof -
  let ?s = "ws_step (CallSendRequest 10 Sent) connected_manager"
  have a: "is_connected ?s" and b: "websocket ?s = Some (Socket False)"
    and c: "pending_requests ?s = [(10, 0)]" and d: "futures ?s = [Pending]"
    and e: "disconnection_callback ?s" "disconnection_callback_calls ?s = 0"
    by (simp_all add: connected_manager_def connect_def new_manager_def send_request_begin_def Let_def)
  show ?thesis
    using pump_close_leaves_requests_pending[OF a b] c d e a b
    by (simp add: message_loop_finally_def Let_def)
qed

text \<open>
  The id a request is given: the clock value it reads plus the number of entries in the
  pending-request table at that moment.
\<close>

lemma send_request_assigns_clock_plus_pending:
  assumes "is_connected s" and "websocket s = Some (Socket False)"
  shows "snd (send_request_begin clock Sent s) = Some (clock + int (length (pending_requests s)))
         \<and> assigned_req_ids (fst (send_request_begin clock outcome s))
             = assigned_req_ids s @ [clock + int (length (pending_requests s))]"
  using assms by (cases outcome) (simp_all add: send_request_begin_def Let_def)

text \<open>
  C6. The claim says the correlation ids assigned are strictly increasing, hence unique across
  outstanding and past requests. There is no counter behind them, and they are neither. Four
  requests read the strictly increasing clock values 10, 11, 12 and 13 and get the ids 10, 12,
  14 and 14: the first two are answered and leave the table, so the fourth finds one entry
  pending and is given the id of the third, which is still outstanding. The table, keyed by
  id, then holds the fourth request's slot in place of the third's; the response carrying id
  14 resolves that slot, and the slot of the third request is left pending.
\<close>

theorem correlation_id_collides_with_outstanding_request:
  "assigned_req_ids (ws_run colliding_id_schedule connected_manager) = [10, 12, 14, 14]
   \<and> \<not> distinct (assigned_req_ids (ws_run colliding_id_schedule connected_manager))
   \<and> \<not> sorted_wrt (<) (assigned_req_ids (ws_run colliding_id_schedule connected_manager))
   \<and> pending_requests (ws_run [CallSendRequest 10 Sent, CallSendRequest 11 Sent,
        CallSendRequest 12 Sent] connected_manager) = [(10, 0), (12, 1), (14, 2)]
   \<and> pending_requests (ws_run colliding_id_schedule connected_manager) = [(14, 3)]
   \<and> futures (ws_run colliding_id_schedule connected_manager) ! 2 = Pending
   \<and> pending_requests (ws_run (colliding_id_schedule @ [FrameArrives (response_to 14)])
        connected_manager) = []
   \<and> futures (ws_run (colliding_id_schedule @ [FrameArrives (response_to 14)])
        connected_manager) ! 2 = Pending"
  by (simp add: colliding_id_schedule_def connected_manager_def connect_def new_manager_def
      send_request_begin_def send_request_end_def process_message_def req_id_of_def
      response_to_def pump_receive_def Let_def)

section \<open>Reconnection controller: success and failure exits\<close>

declare initial_reconnection_attempts.simps [simp del]

lemma max_attempts_new_strategy [simp]:
  "max_attempts (new_strategy c) = get_max_attempts_for_context c"
  by (simp add: new_strategy_def)

lemma max_attempts_pos: "0 < get_max_attempts_for_context c"
  by (simp add: get_max_attempts_for_context_def)

lemma get_delay_ok: "1 \<le> a \<Longrightarrow> \<exists>d. get_delay (new_strategy c) a = Inr d"
  by (cases c) (auto simp: get_delay_def py_index_def new_strategy_def
      get_delays_for_context_def Let_def min_def)

lemma get_persistent_delay_ok: "1 \<le> a \<Longrightarrow> \<exists>d. get_persistent_delay (new_strategy c) a = Inr d"
  by (cases c) (auto simp: get_persistent_delay_def py_index_def new_strategy_def
      get_persistent_delays_def Let_def min_def)

lemma initial_unfold_fail:
  assumes "current_strategy s = Some (new_strategy c)" and "0 \<le> attempt_count s"
    and "attempt_count s < get_max_attempts_for_context c"
    and "reconnect_callback_fn env = Some f" and "f (reconnect_calls s) = NotReconnected"
  shows "\<exists>d. initial_reconnection_attempts env s =
           initial_reconnection_attempts env
             (s\<lparr>attempt_count := attempt_count s + 1, sleeps := sleeps s @ [d],
                reconnect_calls := Suc (reconnect_calls s)\<rparr>)"
proof -
  obtain d where d: "get_delay (new_strategy c) (attempt_count s + 1) = Inr d"
    using get_delay_ok[of "attempt_count s + 1" c] assms(2) by auto
  have "initial_reconnection_attempts env s =
           initial_reconnection_attempts env
             (s\<lparr>attempt_count := attempt_count s + 1, sleeps := sleeps s @ [d],
                reconnect_calls := Suc (reconnect_calls s)\<rparr>)"
    by (subst initial_reconnection_attempts.simps)
       (simp add: assms d attempt_reconnection_def Let_def)
  then show ?thesis by blast
qed

lemma initial_unfold_success:
  assumes "current_strategy s = Some (new_strategy c)" and "0 \<le> attempt_count s"
    and "attempt_count s < get_max_attempts_for_context c"
    and "reconnect_callback_fn env = Some f" and "f (reconnect_calls s) = Reconnected"
  shows "\<exists>s'. initial_reconnection_attempts env s = (Inr True, s')
           \<and> reconnect_calls s' = Suc (reconnect_calls s)
           \<and> attempt_count s' = attempt_count s + 1
           \<and> persistent_cycle s' = persistent_cycle s
           \<and> persistent_recoveries s' = persistent_recoveries s"
proof -
  obtain d where d: "get_delay (new_strategy c) (attempt_count s + 1) = Inr d"
    using get_delay_ok[of "attempt_count s + 1" c] assms(2) by auto
  show ?thesis
    by (subst initial_reconnection_attempts.simps)
       (simp add: assms d attempt_reconnection_def Let_def)
qed

lemma initial_all_fail:
  assumes "current_strategy s = Some (new_strategy c)" and "0 \<le> attempt_count s"
    and "reconnect_callback_fn env = Some f"
    and "n = nat (get_max_attempts_for_context c - attempt_count s)"
    and "\<forall>k<n. f (reconnect_calls s + k) = NotReconnected"
  shows "\<exists>s'. initial_reconnection_attempts env s = (Inr False, s')
           \<and> reconnect_calls s' = reconnect_calls s + n
           \<and> attempt_count s' = max (attempt_count s) (get_max_attempts_for_context c)
           \<and> current_strategy s' = current_strategy s
           \<and> persistent_cycle s' = persistent_cycle s
           \<and> persistent_recoveries s' = persistent_recoveries s"
  using assms
proof (induction n arbitrary: s)
  case 0
  then have "\<not> attempt_count s < get_max_attempts_for_context c" by simp
  then show ?case using "0.prems"(1)
    by (subst initial_reconnection_attempts.simps) simp
next
  case (Suc n)
  then have lt: "attempt_count s < get_max_attempts_for_context c" by linarith
  have f0: "f (reconnect_calls s) = NotReconnected" using Suc.prems(5) by force
  obtain d where d: "initial_reconnection_attempts env s =
           initial_reconnection_attempts env
             (s\<lparr>attempt_count := attempt_count s + 1, sleeps := sleeps s @ [d],
                reconnect_calls := Suc (reconnect_calls s)\<rparr>)"
    using initial_unfold_fail[OF Suc.prems(1,2) lt Suc.prems(3) f0] by blast
  let ?s = "s\<lparr>attempt_count := attempt_count s + 1, sleeps := sleeps s @ [d],
                reconnect_calls := Suc (reconnect_calls s)\<rparr>"
  have "\<forall>k<n. f (reconnect_calls ?s + k) = NotReconnected"
    using Suc.prems(5) by (auto simp: less_Suc_eq_0_disj)
  moreover have "n = nat (get_max_attempts_for_context c - attempt_count ?s)"
    using Suc.prems(4) by simp
  ultimately obtain s' where "initial_reconnection_attempts env ?s = (Inr False, s')"
    "reconnect_calls s' = reconnect_calls ?s + n"
    "attempt_count s' = max (attempt_count ?s) (get_max_attempts_for_context c)"
    "current_strategy s' = current_strategy ?s"
    "persistent_cycle s' = persistent_cycle ?s"
    "persistent_recoveries s' = persistent_recoveries ?s"
    using Suc.IH[of ?s] Suc.prems(1,2,3) by auto
  then show ?case using d lt by auto
qed

lemma initial_succeeds_at:
  assumes "current_strategy s = Some (new_strategy c)" and "0 \<le> attempt_count s"
    and "reconnect_callback_fn env = Some f"
    and "int j < get_max_attempts_for_context c - attempt_count s"
    and "\<forall>k<j. f (reconnect_calls s + k) = NotReconnected"
    and "f (reconnect_calls s + j) = Reconnected"
  shows "\<exists>s'. initial_reconnection_attempts env s = (Inr True, s')
           \<and> reconnect_calls s' = reconnect_calls s + j + 1
           \<and> attempt_count s' = attempt_count s + int j + 1
           \<and> persistent_cycle s' = persistent_cycle s
           \<and> persistent_recoveries s' = persistent_recoveries s"
  using assms
proof (induction j arbitrary: s)
  case 0
  then show ?case using initial_unfold_success[of s c env f] by auto
next
  case (Suc j)
  then have lt: "attempt_count s < get_max_attempts_for_context c" by linarith
  have f0: "f (reconnect_calls s) = NotReconnected" using Suc.prems(5) by force
  obtain d where d: "initial_reconnection_attempts env s =
           initial_reconnection_attempts env
             (s\<lparr>attempt_count := attempt_count s + 1, sleeps := sleeps s @ [d],
                reconnect_calls := Suc (reconnect_calls s)\<rparr>)"
    using initial_unfold_fail[OF Suc.prems(1,2) lt Suc.prems(3) f0] by blast
  let ?s = "s\<lparr>attempt_count := attempt_count s + 1, sleeps := sleeps s @ [d],
                reconnect_calls := Suc (reconnect_calls s)\<rparr>"
  have "\<forall>k<j. f (reconnect_calls ?s + k) = NotReconnected"
    using Suc.prems(5) by (auto simp: less_Suc_eq_0_disj)
  moreover have "f (reconnect_calls ?s + j) = Reconnected" using Suc.prems(6) by simp
  moreover have "int j < get_max_attempts_for_context c - attempt_count ?s"
    using Suc.prems(4) by simp
  ultimately obtain s' where "initial_reconnection_attempts env ?s = (Inr True, s')"
    "reconnect_calls s' = reconnect_calls ?s + j + 1"
    "attempt_count s' = attempt_count ?s + int j + 1"
    "persistent_cycle s' = persistent_cycle ?s"
    "persistent_recoveries s' = persistent_recoveries ?s"
    using Suc.IH[of ?s] Suc.prems(1,2,3) by auto
  then show ?case using d by auto
qed

lemma persistent_unfold_fail:
  assumes "current_strategy s = Some (new_strategy c)" and "0 \<le> persistent_cycle s"
    and "reconnect_callback_fn env = Some f" and "f (reconnect_calls s) = NotReconnected"
  shows "\<exists>d c' ctx'. persistent_reconnection_loop env ctx s =
           persistent_reconnection_loop env ctx'
             (s\<lparr>persistent_cycle := persistent_cycle s + 1, sleeps := sleeps s @ [d],
                reconnect_calls := Suc (reconnect_calls s),
                current_strategy := Some (new_strategy c')\<rparr>)"
proof -
  obtain d where d: "get_persistent_delay (new_strategy c) (persistent_cycle s + 1) = Inr d"
    using get_persistent_delay_ok[of "persistent_cycle s + 1" c] assms(2) by auto
  let ?s3 = "s\<lparr>persistent_cycle := persistent_cycle s + 1, sleeps := sleeps s @ [d],
                reconnect_calls := Suc (reconnect_calls s)\<rparr>"
  have same: "?s3\<lparr>current_strategy := Some (new_strategy c)\<rparr> = ?s3"
    using assms(1) by simp
  have unfold: "persistent_reconnection_loop env ctx s =
     (if persistent_cycle ?s3 mod 3 = 0 then
        (let new_context = determine_context env ?s3
         in if new_context \<noteq> ctx
            then persistent_reconnection_loop env new_context
                   (?s3\<lparr>current_strategy := Some (new_strategy new_context)\<rparr>)
            else persistent_reconnection_loop env ctx ?s3)
      else persistent_reconnection_loop env ctx ?s3)"
    by (subst persistent_reconnection_loop.simps)
       (simp add: assms d attempt_reconnection_def Let_def)
  show ?thesis
  proof (cases "persistent_cycle ?s3 mod 3 = 0 \<and> determine_context env ?s3 \<noteq> ctx")
    case True
    then have "persistent_reconnection_loop env ctx s =
        persistent_reconnection_loop env (determine_context env ?s3)
          (?s3\<lparr>current_strategy := Some (new_strategy (determine_context env ?s3))\<rparr>)"
      using unfold by (simp add: Let_def)
    then show ?thesis by blast
  next
    case False
    then have "persistent_reconnection_loop env ctx s =
        persistent_reconnection_loop env ctx (?s3\<lparr>current_strategy := Some (new_strategy c)\<rparr>)"
      using unfold same by (auto simp: Let_def)
    then show ?thesis by blast
  qed
qed

lemma persistent_unfold_success:
  assumes "current_strategy s = Some (new_strategy c)" and "0 \<le> persistent_cycle s"
    and "reconnect_callback_fn env = Some f" and "f (reconnect_calls s) = Reconnected"
  shows "\<exists>s'. persistent_reconnection_loop env ctx s = Some (Inr True, s')
           \<and> reconnect_calls s' = Suc (reconnect_calls s)
           \<and> persistent_cycle s' = persistent_cycle s + 1
           \<and> attempt_count s' = attempt_count s
           \<and> persistent_recoveries s' = persistent_recoveries s + 1"
proof -
  obtain d where d: "get_persistent_delay (new_strategy c) (persistent_cycle s + 1) = Inr d"
    using get_persistent_delay_ok[of "persistent_cycle s + 1" c] assms(2) by auto
  show ?thesis
    by (subst persistent_reconnection_loop.simps)
       (simp add: assms d attempt_reconnection_def Let_def)
qed

lemma persistent_succeeds_at:
  assumes "current_strategy s = Some (new_strategy c)" and "0 \<le> persistent_cycle s"
    and "reconnect_callback_fn env = Some f"
    and "\<forall>k<j. f (reconnect_calls s + k) = NotReconnected"
    and "f (reconnect_calls s + j) = Reconnected"
  shows "\<exists>s'. persistent_reconnection_loop env ctx s = Some (Inr True, s')
           \<and> reconnect_calls s' = reconnect_calls s + j + 1
           \<and> persistent_cycle s' = persistent_cycle s + int j + 1
           \<and> attempt_count s' = attempt_count s
           \<and> persistent_recoveries s' = persistent_recoveries s + 1"
  using assms
proof (induction j arbitrary: s c ctx)
  case 0
  then show ?case using persistent_unfold_success[of s c env f ctx] by auto
next
  case (Suc j)
  have f0: "f (reconnect_calls s) = NotReconnected" using Suc.prems(4) by force
  obtain d c' ctx' where d: "persistent_reconnection_loop env ctx s =
           persistent_reconnection_loop env ctx'
             (s\<lparr>persistent_cycle := persistent_cycle s + 1, sleeps := sleeps s @ [d],
                reconnect_calls := Suc (reconnect_calls s),
                current_strategy := Some (new_strategy c')\<rparr>)"
    using persistent_unfold_fail[OF Suc.prems(1,2,3) f0, of ctx] by blast
  let ?s = "s\<lparr>persistent_cycle := persistent_cycle s + 1, sleeps := sleeps s @ [d],
                reconnect_calls := Suc (reconnect_calls s),
                current_strategy := Some (new_strategy c')\<rparr>"
  have "\<forall>k<j. f (reconnect_calls ?s + k) = NotReconnected"
    using Suc.prems(4) by (auto simp: less_Suc_eq_0_disj)
  moreover have "f (reconnect_calls ?s + j) = Reconnected" using Suc.prems(5) by simp
  moreover have "current_strategy ?s = Some (new_strategy c')" "0 \<le> persistent_cycle ?s"
    using Suc.prems(2) by simp_all
  ultimately obtain s' where "persistent_reconnection_loop env ctx' ?s = Some (Inr True, s')"
    "reconnect_calls s' = reconnect_calls ?s + j + 1"
    "persistent_cycle s' = persistent_cycle ?s + int j + 1"
    "attempt_count s' = attempt_count ?s"
    "persistent_recoveries s' = persistent_recoveries ?s + 1"
    using Suc.IH[of ?s c' ctx'] Suc.prems(3) by auto
  then show ?case using d by auto
qed

lemma start_succeeds_on_Mth_call:
  assumes idle: "\<not> is_reconnecting s"
    and cb: "reconnect_callback_fn env = Some f"
    and M: "1 \<le> M"
    and fails: "\<forall>k<M - 1. f (reconnect_calls s + k) = NotReconnected"
    and succ: "f (reconnect_calls s + (M - 1)) = Reconnected"
  shows "\<exists>s'. start_persistent_reconnection env s = Some (True, s')
           \<and> reconnect_calls s' = reconnect_calls s + M
           \<and> attempt_count s' = min (int M) (get_max_attempts_for_context (determine_context env s))
           \<and> persistent_cycle s'
               = max 0 (int M - get_max_attempts_for_context (determine_context env s))
           \<and> \<not> is_reconnecting s'"
proof -
  define s0 where "s0 = s\<lparr>is_reconnecting := True, attempt_count := 0, persistent_cycle := 0,
                   is_persistent_mode := False,
                   total_reconnections := total_reconnections s + 1\<rparr>"
  define ctx where "ctx = determine_context env s0"
  define s1 where "s1 = s0\<lparr>current_strategy := Some (new_strategy ctx)\<rparr>"
  define mx where "mx = get_max_attempts_for_context ctx"
  have ctx_eq: "determine_context env s = ctx"
    by (simp add: ctx_def s0_def determine_context_def split: option.splits)
  have start: "start_persistent_reconnection env s =
     (case initial_reconnection_attempts env s1 of
              (Inl e, s1) \<Rightarrow> Some (False, reconnection_finally s1)
            | (Inr ok, s1) \<Rightarrow>
                if ok then Some (True, reconnection_finally s1)
                else
                  (case persistent_reconnection_loop env ctx (s1\<lparr>is_persistent_mode := True\<rparr>) of
                     None \<Rightarrow> None
                   | Some (Inl e, s2) \<Rightarrow> Some (False, reconnection_finally s2)
                   | Some (Inr ok, s2) \<Rightarrow> Some (ok, reconnection_finally s2)))"
    unfolding start_persistent_reconnection_def Let_def s1_def ctx_def s0_def
    using idle by simp
  have s1_facts: "current_strategy s1 = Some (new_strategy ctx)" "attempt_count s1 = 0"
    "reconnect_calls s1 = reconnect_calls s" "persistent_cycle s1 = 0"
    by (simp_all add: s1_def s0_def)
  have mx_pos: "0 < mx" by (simp add: mx_def max_attempts_pos)
  show ?thesis
  proof (cases "int M \<le> mx")
    case True
    have "int (M - 1) < get_max_attempts_for_context ctx - attempt_count s1"
      using True M by (simp add: s1_facts mx_def)
    then obtain s' where s': "initial_reconnection_attempts env s1 = (Inr True, s')"
      "reconnect_calls s' = reconnect_calls s1 + (M - 1) + 1"
      "attempt_count s' = attempt_count s1 + int (M - 1) + 1"
      "persistent_cycle s' = persistent_cycle s1"
      using initial_succeeds_at[OF s1_facts(1) _ cb, of "M - 1"] fails succ
      by (auto simp: s1_facts)
    have "start_persistent_reconnection env s = Some (True, reconnection_finally s')"
      using start s'(1) by simp
    moreover have "reconnect_calls (reconnection_finally s') = reconnect_calls s + M"
      "attempt_count (reconnection_finally s') = min (int M) mx"
      "persistent_cycle (reconnection_finally s') = max 0 (int M - mx)"
      "\<not> is_reconnecting (reconnection_finally s')"
      using s'(2,3,4) True M by (simp_all add: reconnection_finally_def s1_facts)
    ultimately show ?thesis unfolding ctx_eq mx_def[symmetric] by blast
  next
    case False
    define n where "n = nat mx"
    have n: "n = nat (get_max_attempts_for_context ctx - attempt_count s1)" "n \<le> M - 1"
      using False mx_pos by (simp_all add: n_def s1_facts mx_def)
    have "\<forall>k<n. f (reconnect_calls s1 + k) = NotReconnected"
      using fails n(2) by (simp add: s1_facts)
    then obtain s' where s': "initial_reconnection_attempts env s1 = (Inr False, s')"
      "reconnect_calls s' = reconnect_calls s1 + n"
      "attempt_count s' = max (attempt_count s1) (get_max_attempts_for_context ctx)"
      "current_strategy s' = current_strategy s1"
      "persistent_cycle s' = persistent_cycle s1"
      using initial_all_fail[OF s1_facts(1) _ cb n(1)] by (auto simp: s1_facts)
    let ?p = "s'\<lparr>is_persistent_mode := True\<rparr>"
    define j where "j = M - 1 - n"
    have p_facts: "current_strategy ?p = Some (new_strategy ctx)" "0 \<le> persistent_cycle ?p"
      "reconnect_calls ?p = reconnect_calls s + n"
      using s' by (simp_all add: s1_facts)
    have "\<forall>k<j. f (reconnect_calls ?p + k) = NotReconnected"
    proof (intro allI impI)
      fix k assume "k < j"
      then have "n + k < M - 1" using n(2) by (simp add: j_def)
      then have "f (reconnect_calls s + (n + k)) = NotReconnected" using fails by blast
      then show "f (reconnect_calls ?p + k) = NotReconnected"
        by (simp add: p_facts add.assoc)
    qed
    moreover have "f (reconnect_calls ?p + j) = Reconnected"
    proof -
      have "reconnect_calls ?p + j = reconnect_calls s + (M - 1)"
        using n(2) by (simp add: p_facts j_def)
      then show ?thesis using succ by simp
    qed
    ultimately obtain s2 where s2: "persistent_reconnection_loop env ctx ?p = Some (Inr True, s2)"
      "reconnect_calls s2 = reconnect_calls ?p + j + 1"
      "persistent_cycle s2 = persistent_cycle ?p + int j + 1"
      "attempt_count s2 = attempt_count ?p"
      using persistent_succeeds_at[OF p_facts(1,2) cb, of j ctx] by blast
    have "start_persistent_reconnection env s = Some (True, reconnection_finally s2)"
      using start s'(1) s2(1) by simp
    moreover have "reconnect_calls (reconnection_finally s2) = reconnect_calls s + M"
      using s2(2) n(2) M by (simp add: reconnection_finally_def p_facts j_def)
    moreover have "attempt_count (reconnection_finally s2) = min (int M) mx"
      using s2(4) s'(3) False mx_pos by (simp add: reconnection_finally_def s1_facts mx_def)
    moreover have "persistent_cycle (reconnection_finally s2) = max 0 (int M - mx)"
      using s2(3) s'(5) False n(2) mx_pos M
      by (simp add: reconnection_finally_def s1_facts j_def n_def)
    moreover have "\<not> is_reconnecting (reconnection_finally s2)"
      by (simp add: reconnection_finally_def)
    ultimately show ?thesis unfolding ctx_eq mx_def[symmetric] by blast
  qed
qed

lemma attempt_never_raises:
  assumes "\<forall>f k msg. reconnect_callback_fn env = Some f \<longrightarrow> f k \<noteq> ReconnectRaised msg"
  shows "\<exists>b s'. attempt_reconnection env s = (Inr b, s')
           \<and> current_strategy s' = current_strategy s
           \<and> attempt_count s' = attempt_count s
           \<and> persistent_cycle s' = persistent_cycle s"
proof (cases "reconnect_callback_fn env")
  case None
  then show ?thesis by (auto simp: attempt_reconnection_def)
next
  case (Some f)
  then show ?thesis using assms
    by (cases "f (reconnect_calls s)") (auto simp: attempt_reconnection_def Let_def)
qed

lemma initial_never_raises:
  assumes "current_strategy s = Some (new_strategy c)" and "0 \<le> attempt_count s"
    and "\<forall>f k msg. reconnect_callback_fn env = Some f \<longrightarrow> f k \<noteq> ReconnectRaised msg"
    and "n = nat (get_max_attempts_for_context c - attempt_count s)"
  shows "\<exists>b s'. initial_reconnection_attempts env s = (Inr b, s')
           \<and> current_strategy s' = current_strategy s
           \<and> persistent_cycle s' = persistent_cycle s"
  using assms
proof (induction n arbitrary: s)
  case 0
  then have "\<not> attempt_count s < get_max_attempts_for_context c" by simp
  then have "initial_reconnection_attempts env s = (Inr False, s)" using "0.prems"(1)
    by (subst initial_reconnection_attempts.simps) simp
  then show ?case by blast
next
  case (Suc n)
  then have lt: "attempt_count s < get_max_attempts_for_context c" by linarith
  obtain d where d: "get_delay (new_strategy c) (attempt_count s + 1) = Inr d"
    using get_delay_ok[of "attempt_count s + 1" c] Suc.prems(2) by auto
  let ?s2 = "s\<lparr>attempt_count := attempt_count s + 1, sleeps := sleeps s @ [d]\<rparr>"
  obtain b s3 where a: "attempt_reconnection env ?s2 = (Inr b, s3)"
    "current_strategy s3 = current_strategy ?s2" "attempt_count s3 = attempt_count ?s2"
    "persistent_cycle s3 = persistent_cycle ?s2"
    using attempt_never_raises[OF Suc.prems(3), of ?s2] by blast
  have unfold: "initial_reconnection_attempts env s =
      (if b then (Inr True, s3) else initial_reconnection_attempts env s3)"
    by (subst initial_reconnection_attempts.simps) (simp add: Suc.prems(1) lt d a(1) Let_def)
  show ?case
  proof (cases b)
    case True
    then show ?thesis using unfold a by auto
  next
    case False
    have "n = nat (get_max_attempts_for_context c - attempt_count s3)"
      using Suc.prems(4) a(3) by simp
    then obtain b' s' where "initial_reconnection_attempts env s3 = (Inr b', s')"
      "current_strategy s' = current_strategy s3" "persistent_cycle s' = persistent_cycle s3"
      using Suc.IH[of s3] a(2,3) Suc.prems(1,2,3) by auto
    then show ?thesis using unfold False a by auto
  qed
qed

lemma persistent_only_success:
  assumes "persistent_reconnection_loop env ctx s = Some y"
  shows "(\<exists>c. current_strategy s = Some (new_strategy c)) \<longrightarrow> 0 \<le> persistent_cycle s
         \<longrightarrow> (\<forall>f k msg. reconnect_callback_fn env = Some f \<longrightarrow> f k \<noteq> ReconnectRaised msg)
         \<longrightarrow> fst y = Inr True"
proof (rule persistent_reconnection_loop.raw_induct[where P = "\<lambda>env ctx s y.
         (\<exists>c. current_strategy s = Some (new_strategy c)) \<longrightarrow> 0 \<le> persistent_cycle s
         \<longrightarrow> (\<forall>f k msg. reconnect_callback_fn env = Some f \<longrightarrow> f k \<noteq> ReconnectRaised msg)
         \<longrightarrow> fst y = Inr True", OF _ assms], goal_cases)
  case (1 loop env ctx s y)
  note IH = "1"(1) and hyps = "1"(2)
  show ?case
  proof (intro impI)
    assume strat: "\<exists>c. current_strategy s = Some (new_strategy c)"
      and pc: "0 \<le> persistent_cycle s"
      and nr: "\<forall>f k msg. reconnect_callback_fn env = Some f \<longrightarrow> f k \<noteq> ReconnectRaised msg"
    obtain c where c: "current_strategy s = Some (new_strategy c)" using strat by blast
    obtain d where d: "get_persistent_delay (new_strategy c) (persistent_cycle s + 1) = Inr d"
      using get_persistent_delay_ok[of "persistent_cycle s + 1" c] pc by auto
    let ?s2 = "s\<lparr>persistent_cycle := persistent_cycle s + 1, sleeps := sleeps s @ [d]\<rparr>"
    obtain b s3 where a: "attempt_reconnection env ?s2 = (Inr b, s3)"
      "current_strategy s3 = current_strategy ?s2" "persistent_cycle s3 = persistent_cycle ?s2"
      using attempt_never_raises[OF nr, of ?s2] by blast
    have body: "(if b then
                   Some (Inr True,
                     s3\<lparr>successful_reconnections := successful_reconnections s3 + 1,
                        persistent_recoveries := persistent_recoveries s3 + 1\<rparr>)
                 else if persistent_cycle s3 mod 3 = 0 then
                   (let new_context = determine_context env s3
                    in if new_context \<noteq> ctx
                       then loop env new_context
                              (s3\<lparr>current_strategy := Some (new_strategy new_context)\<rparr>)
                       else loop env ctx s3)
                 else loop env ctx s3) = Some y"
      using hyps by (simp add: c d a(1) Let_def)
    show "fst y = Inr True"
    proof (cases b)
      case True
      then show ?thesis using body by auto
    next
      case False
      have s3_ok: "\<exists>c. current_strategy s3 = Some (new_strategy c)" "0 \<le> persistent_cycle s3"
        using a c pc by auto
      show ?thesis
      proof (cases "persistent_cycle s3 mod 3 = 0 \<and> determine_context env s3 \<noteq> ctx")
        case True
        let ?s4 = "s3\<lparr>current_strategy := Some (new_strategy (determine_context env s3))\<rparr>"
        have "loop env (determine_context env s3) ?s4 = Some y"
          using body False True by (simp add: Let_def)
        moreover have "\<exists>c. current_strategy ?s4 = Some (new_strategy c)" "0 \<le> persistent_cycle ?s4"
          using s3_ok by auto
        ultimately show ?thesis using IH nr by blast
      next
        case no_switch: False
        then have "loop env ctx s3 = Some y"
          using body False by (auto simp: Let_def split: if_splits)
        then show ?thesis using IH nr s3_ok by blast
      qed
    qed
  qed
qed

lemma start_never_returns_failure:
  assumes idle: "\<not> is_reconnecting s"
    and nr: "\<forall>f k msg. reconnect_callback_fn env = Some f \<longrightarrow> f k \<noteq> ReconnectRaised msg"
  shows "start_persistent_reconnection env s \<noteq> Some (False, s')"
proof -
  define s0 where "s0 = s\<lparr>is_reconnecting := True, attempt_count := 0, persistent_cycle := 0,
                   is_persistent_mode := False,
                   total_reconnections := total_reconnections s + 1\<rparr>"
  define ctx where "ctx = determine_context env s0"
  define s1 where "s1 = s0\<lparr>current_strategy := Some (new_strategy ctx)\<rparr>"
  have start: "start_persistent_reconnection env s =
     (case initial_reconnection_attempts env s1 of
              (Inl e, s1) \<Rightarrow> Some (False, reconnection_finally s1)
            | (Inr ok, s1) \<Rightarrow>
                if ok then Some (True, reconnection_finally s1)
                else
                  (case persistent_reconnection_loop env ctx (s1\<lparr>is_persistent_mode := True\<rparr>) of
                     None \<Rightarrow> None
                   | Some (Inl e, s2) \<Rightarrow> Some (False, reconnection_finally s2)
                   | Some (Inr ok, s2) \<Rightarrow> Some (ok, reconnection_finally s2)))"
    unfolding start_persistent_reconnection_def Let_def s1_def ctx_def s0_def
    using idle by simp
  have s1_facts: "current_strategy s1 = Some (new_strategy ctx)" "attempt_count s1 = 0"
    "persistent_cycle s1 = 0"
    by (simp_all add: s1_def s0_def)
  obtain b s2 where i: "initial_reconnection_attempts env s1 = (Inr b, s2)"
    "current_strategy s2 = current_strategy s1" "persistent_cycle s2 = persistent_cycle s1"
    using initial_never_raises[OF s1_facts(1) _ nr refl] by (auto simp: s1_facts)
  show ?thesis
  proof (cases b)
    case True
    then show ?thesis using start i by simp
  next
    case False
    let ?p = "s2\<lparr>is_persistent_mode := True\<rparr>"
    have p_ok: "\<exists>c. current_strategy ?p = Some (new_strategy c)" "0 \<le> persistent_cycle ?p"
      using i s1_facts by auto
    show ?thesis
    proof (cases "persistent_reconnection_loop env ctx ?p")
      case None
      then show ?thesis using start i False by simp
    next
      case (Some y)
      then have "fst y = Inr True" using persistent_only_success[OF Some] p_ok nr by blast
      then show ?thesis using start i False Some by (cases y) auto
    qed
  qed
qed

text \<open>
  C5. The claim says that with a reconnect callback failing on its first \<open>M - 1\<close> invocations
  and succeeding on the \<open>M\<close>-th the controller invokes it exactly \<open>M\<close> times and returns
  success, and that the controller has no failure exit of its own. That holds for a callback
  whose failures are the answer false (\<open>start_succeeds_on_Mth_call\<close>,
  \<open>start_never_returns_failure\<close>). A failure that is an exception is caught by the
  controller around both phases and ends the reconnection: started while no reconnection is
  in progress, with a callback that raises on its next invocation, the controller returns
  failure after that single invocation, whatever the callback would answer afterwards.
\<close>

theorem raising_callback_ends_reconnection_in_failure:
  assumes idle: "\<not> is_reconnecting s"
    and cb: "reconnect_callback_fn env = Some f"
    and raises: "f (reconnect_calls s) = ReconnectRaised msg"
  shows "\<exists>s'. start_persistent_reconnection env s = Some (False, s')
           \<and> reconnect_calls s' = Suc (reconnect_calls s)
           \<and> \<not> is_reconnecting s'"
proof -
  define s0 where "s0 = s\<lparr>is_reconnecting := True, attempt_count := 0, persistent_cycle := 0,
                   is_persistent_mode := False,
                   total_reconnections := total_reconnections s + 1\<rparr>"
  define ctx where "ctx = determine_context env s0"
  define s1 where "s1 = s0\<lparr>current_strategy := Some (new_strategy ctx)\<rparr>"
  have start: "start_persistent_reconnection env s =
     (case initial_reconnection_attempts env s1 of
              (Inl e, s1) \<Rightarrow> Some (False, reconnection_finally s1)
            | (Inr ok, s1) \<Rightarrow>
                if ok then Some (True, reconnection_finally s1)
                else
                  (case persistent_reconnection_loop env ctx (s1\<lparr>is_persistent_mode := True\<rparr>) of
                     None \<Rightarrow> None
                   | Some (Inl e, s2) \<Rightarrow> Some (False, reconnection_finally s2)
                   | Some (Inr ok, s2) \<Rightarrow> Some (ok, reconnection_finally s2)))"
    unfolding start_persistent_reconnection_def Let_def s1_def ctx_def s0_def
    using idle by simp
  have s1_facts: "current_strategy s1 = Some (new_strategy ctx)" "attempt_count s1 = 0"
    "reconnect_calls s1 = reconnect_calls s"
    by (simp_all add: s1_def s0_def)
  obtain d where d: "get_delay (new_strategy ctx) 1 = Inr d"
    using get_delay_ok[of 1 ctx] by auto
  let ?s3 = "s1\<lparr>attempt_count := 1, sleeps := sleeps s1 @ [d],
                reconnect_calls := Suc (reconnect_calls s1)\<rparr>"
  have "initial_reconnection_attempts env s1 = (Inl (HandlerException msg), ?s3)"
    using max_attempts_pos[of ctx]
    by (subst initial_reconnection_attempts.simps)
       (simp add: s1_facts d cb raises attempt_reconnection_def Let_def)
  then have "start_persistent_reconnection env s = Some (False, reconnection_finally ?s3)"
    using start by simp
  moreover have "reconnect_calls (reconnection_finally ?s3) = Suc (reconnect_calls s)"
    "\<not> is_reconnecting (reconnection_finally ?s3)"
    by (simp_all add: reconnection_finally_def s1_facts)
  ultimately show ?thesis by blast
qed

theorem raising_callback_ends_reconnection_in_failure_witness:
  "\<exists>s'. start_persistent_reconnection stub_raising_once new_reconnection_system = Some (False, s')
      \<and> reconnect_calls s' = 1"
  using raising_callback_ends_reconnection_in_failure[of new_reconnection_system stub_raising_once
      "\<lambda>k. if k = 0 then ReconnectRaised ''boom'' else Reconnected" "''boom''"]
  by (auto simp: stub_raising_once_def new_reconnection_system_def)

section \<open>Recovery coordinator: forced results and the report\<close>

lemma recover_attempts_unusable:
  assumes "case send_request_callback s of None \<Rightarrow> True
           | Some send \<Rightarrow> list_all (\<lambda>attempt. unusable (send (id' c) attempt)) attempts"
  shows "recover_attempts attempts c s =
           (c, s\<lparr>failed_recoveries := failed_recoveries s + 1\<rparr>,
            \<lparr>success = False, result_profit = 0, result_data = None, still_active = False\<rparr>)"
  using assms
proof (induction attempts)
  case Nil
  then show ?case by simp
next
  case (Cons a attempts)
  show ?case
  proof (cases "send_request_callback s")
    case None
    then show ?thesis by simp
  next
    case (Some send)
    then have u: "unusable (send (id' c) a)" and rest: "list_all (\<lambda>attempt. unusable (send (id' c) attempt)) attempts"
      using Cons.prems by simp_all
    have "recover_attempts (a # attempts) c s = recover_attempts attempts c s"
      using u Some by (cases "send (id' c) a") auto
    then show ?thesis using Cons.IH rest Some by simp
  qed
qed

lemma recover_single_unusable:
  assumes "no_usable_response s c"
  shows "fst (recover_single_contract c s) = c
         \<and> \<not> success (snd (snd (recover_single_contract c s)))"
proof -
  let ?s = "s\<lparr>total_recoveries_attempted := total_recoveries_attempted s + 1\<rparr>"
  have "case send_request_callback ?s of None \<Rightarrow> True
        | Some send \<Rightarrow> list_all (\<lambda>attempt. unusable (send (id' c) attempt))
            [0..<nat (max_recovery_attempts s)]"
    using assms by (simp add: no_usable_response_def split: option.splits)
  then show ?thesis
    using recover_attempts_unusable[where s = ?s and c = c
        and attempts = "[0..<nat (max_recovery_attempts s)]"]
    by (simp add: recover_single_contract_def)
qed

lemma recover_attempts_keeps_callbacks:
  "send_request_callback (fst (snd (recover_attempts attempts c s))) = send_request_callback s
   \<and> contract_update_callback (fst (snd (recover_attempts attempts c s)))
       = contract_update_callback s
   \<and> max_recovery_attempts (fst (snd (recover_attempts attempts c s))) = max_recovery_attempts s"
proof (induction attempts)
  case Nil
  then show ?case by simp
next
  case (Cons a attempts)
  then show ?case
    by (auto simp: Let_def split: option.splits venue_reply.splits)
qed

lemma recover_single_keeps_callbacks:
  "send_request_callback (fst (snd (recover_single_contract c s))) = send_request_callback s
   \<and> max_recovery_attempts (fst (snd (recover_single_contract c s))) = max_recovery_attempts s"
  using recover_attempts_keeps_callbacks[of "[0..<nat (max_recovery_attempts s)]" c
      "s\<lparr>total_recoveries_attempted := total_recoveries_attempted s + 1\<rparr>"]
  by (simp add: recover_single_contract_def)

lemma no_usable_response_cong:
  "send_request_callback s' = send_request_callback s
   \<Longrightarrow> max_recovery_attempts s' = max_recovery_attempts s
   \<Longrightarrow> no_usable_response s' c = no_usable_response s c"
  by (cases "send_request_callback s") (simp_all add: no_usable_response_def)

text \<open>One pass of the loop body, as an equation on the loop.\<close>

lemma recover_items_Cons:
  "\<exists>c' s' r'. recover_items ((k, c) # rest) s r =
       (case recover_items rest s' r' of (items, s'', r'') \<Rightarrow> ((k, c') # items, s'', r''))
     \<and> send_request_callback s' = send_request_callback s
     \<and> max_recovery_attempts s' = max_recovery_attempts s
     \<and> recovered r' + failed r' = recovered r + failed r + 1
     \<and> recovered r \<le> recovered r' \<and> failed r \<le> failed r'
     \<and> (no_usable_response s c \<longrightarrow> c' = c\<lparr>status := FINISHED, profit := - amount c\<rparr>)"
proof -
  obtain c1 s1 res where rs: "recover_single_contract c s = (c1, s1, res)"
    by (cases "recover_single_contract c s") auto
  have keep: "send_request_callback s1 = send_request_callback s"
    "max_recovery_attempts s1 = max_recovery_attempts s"
    using recover_single_keeps_callbacks[of c s] rs by simp_all
  have forced: "no_usable_response s c \<Longrightarrow> c1 = c \<and> \<not> success res"
    using recover_single_unusable[of s c] rs by simp
  show ?thesis
  proof (cases "success res")
    case False
    then show ?thesis using rs keep forced
      by (simp add: Let_def) (rule exI[of _ "c1\<lparr>status := FINISHED, profit := - amount c1\<rparr>"],
          rule exI[of _ "s1\<lparr>contracts_forced_as_loss := contracts_forced_as_loss s1 + 1\<rparr>"],
          rule exI[of _ "r\<lparr>failed := failed r + 1,
                          total_profit := total_profit r - amount c1\<rparr>"], auto)
  next
    case True
    note succ = True
    show ?thesis
    proof (cases "contract_update_callback s1")
      case None
      then show ?thesis using rs keep forced succ
        by (simp add: Let_def) (rule exI[of _ c1], rule exI[of _ s1],
          rule exI[of _ "r\<lparr>recovered := recovered r + 1,
                          total_profit := total_profit r + result_profit res\<rparr>"], auto)
    next
      case (Some callback)
      obtain c2 raised where cb: "callback c1 (result_data res) = (c2, raised)"
        by (cases "callback c1 (result_data res)") auto
      show ?thesis using rs keep forced succ Some cb
        by (simp add: Let_def) (rule exI[of _ c2],
          rule exI[of _ "case raised of None \<Rightarrow> s1
              | Some e \<Rightarrow> s1\<lparr>recovery_error_log := recovery_error_log s1 @ [CallbackErrorLogged e]\<rparr>"],
          rule exI[of _ "r\<lparr>recovered := recovered r + 1,
                          total_profit := total_profit r + result_profit res\<rparr>"],
          auto split: option.splits)
    qed
  qed
qed

lemma recover_items_nth:
  "recover_items items s r = (items', s', r') \<Longrightarrow> i < length items \<Longrightarrow> items ! i = (k, c)
   \<Longrightarrow> no_usable_response s c
   \<Longrightarrow> items' ! i = (k, c\<lparr>status := FINISHED, profit := - amount c\<rparr>)"
proof (induction items arbitrary: s r items' s' r' i)
  case Nil
  then show ?case by simp
next
  case (Cons kc items)
  obtain k0 c0 where kc: "kc = (k0, c0)" by (cases kc) auto
  obtain c1 s1 r1 where step: "recover_items ((k0, c0) # items) s r =
       (case recover_items items s1 r1 of (its, s'', r'') \<Rightarrow> ((k0, c1) # its, s'', r''))"
    and keep: "send_request_callback s1 = send_request_callback s"
      "max_recovery_attempts s1 = max_recovery_attempts s"
    and forced: "no_usable_response s c0 \<longrightarrow> c1 = c0\<lparr>status := FINISHED, profit := - amount c0\<rparr>"
    using recover_items_Cons[of k0 c0 items s r] by blast
  obtain its s2 r2 where rest: "recover_items items s1 r1 = (its, s2, r2)"
    by (cases "recover_items items s1 r1") auto
  have items': "items' = (k0, c1) # its"
    using Cons.prems(1) step rest kc by simp
  show ?case
  proof (cases i)
    case 0
    then show ?thesis using Cons.prems(3,4) kc items' forced by simp
  next
    case (Suc j)
    have "no_usable_response s1 c"
      using Cons.prems(4) no_usable_response_cong[OF keep] by simp
    then have "its ! j = (k, c\<lparr>status := FINISHED, profit := - amount c\<rparr>)"
      using Cons.IH[OF rest, of j] Cons.prems(2,3) Suc by simp
    then show ?thesis using items' Suc by simp
  qed
qed

text \<open>
  C2. The claim says a snapshotted position with no usable venue response after the bounded
  attempts is forced to status finished and profit minus its amount, with its forced-result
  flag set to true. Recovery does force the status and the profit, but it leaves the
  forced-result flag as it found it: false for a position that was open.
\<close>

theorem recovery_forces_loss_without_flag:
  assumes "i < length (monitored_contracts s)"
    and "monitored_contracts s ! i = (k, c)"
    and "no_usable_response s c"
  shows "status (snd (monitored_contracts (fst (recover_lost_contracts s)) ! i)) = FINISHED
         \<and> profit (snd (monitored_contracts (fst (recover_lost_contracts s)) ! i)) = - amount c
         \<and> forced_result (snd (monitored_contracts (fst (recover_lost_contracts s)) ! i))
             = forced_result c"
proof -
  let ?zero = "\<lparr>total_contracts = 0, recovered = 0, failed = 0, total_profit = 0\<rparr>"
  obtain items' s' r' where run: "recover_items (monitored_contracts s) s ?zero = (items', s', r')"
    by (cases "recover_items (monitored_contracts s) s ?zero") auto
  have ne: "monitored_contracts s \<noteq> []" using assms(1) by auto
  have "monitored_contracts (fst (recover_lost_contracts s)) = items'"
    using run ne by (simp add: recover_lost_contracts_def)
  moreover have "items' ! i = (k, c\<lparr>status := FINISHED, profit := - amount c\<rparr>)"
    using recover_items_nth[OF run assms] .
  ultimately show ?thesis by simp
qed

theorem recovery_forces_loss_without_flag_witness:
  "status (snd (monitored_contracts (fst (recover_lost_contracts unreachable_venue_recovery)) ! 0))
     = FINISHED
   \<and> profit (snd (monitored_contracts (fst (recover_lost_contracts unreachable_venue_recovery)) ! 0))
     = - 1
   \<and> forced_result
       (snd (monitored_contracts (fst (recover_lost_contracts unreachable_venue_recovery)) ! 0))
     = False"
proof -
  have a: "0 < length (monitored_contracts unreachable_venue_recovery)"
    and b: "monitored_contracts unreachable_venue_recovery ! 0 = (''c1'', open_position)"
    and c: "no_usable_response unreachable_venue_recovery open_position"
    by (simp_all add: unreachable_venue_recovery_def new_recovery_def no_usable_response_def
        list_all_iff)
  show ?thesis using recovery_forces_loss_without_flag[OF a b c]
    by (simp add: open_position_def)
qed

lemma recover_attempts_open:
  assumes "send_request_callback s = Some send"
    and "list_all (\<lambda>attempt. unusable (send (id' c) attempt)) pre"
    and "send (id' c) a = ResponseData cd" and "data_status cd = Some ''open''"
  shows "recover_attempts (pre @ a # post) c s =
           (c, s, \<lparr>success = True, result_profit = 0, result_data = Some cd,
                    still_active = True\<rparr>)"
  using assms(2)
proof (induction pre)
  case Nil
  then show ?case using assms(1,3,4) by simp
next
  case (Cons b pre)
  then have u: "unusable (send (id' c) b)" by simp
  have "recover_attempts ((b # pre) @ a # post) c s = recover_attempts (pre @ a # post) c s"
    using u assms(1) by (cases "send (id' c) b") auto
  then show ?case using Cons by simp
qed

lemma recover_single_open:
  assumes "send_request_callback s = Some send" and "j < nat (max_recovery_attempts s)"
    and "\<forall>a<j. unusable (send (id' c) a)"
    and "send (id' c) j = ResponseData cd" and "data_status cd = Some ''open''"
  shows "recover_single_contract c s =
           (c, s\<lparr>total_recoveries_attempted := total_recoveries_attempted s + 1\<rparr>,
            \<lparr>success = True, result_profit = 0, result_data = Some cd, still_active = True\<rparr>)"
proof -
  let ?s = "s\<lparr>total_recoveries_attempted := total_recoveries_attempted s + 1\<rparr>"
  have split: "[0..<nat (max_recovery_attempts s)]
                 = [0..<j] @ j # [Suc j..<nat (max_recovery_attempts s)]"
    using assms(2) upt_add_eq_append[of 0 j "nat (max_recovery_attempts s) - j"]
    by (simp add: upt_conv_Cons)
  have "list_all (\<lambda>attempt. unusable (send (id' c) attempt)) [0..<j]"
    using assms(3) by (simp add: list_all_iff)
  then have "recover_attempts ([0..<j] @ j # [Suc j..<nat (max_recovery_attempts s)]) c ?s =
           (c, ?s, \<lparr>success = True, result_profit = 0, result_data = Some cd,
                    still_active = True\<rparr>)"
    using recover_attempts_open[where s = ?s and send = send and c = c and pre = "[0..<j]"
        and a = j and cd = cd] assms(1,4,5) by simp
  then show ?thesis using split by (simp add: recover_single_contract_def)
qed

lemma recover_attempts_same_outcome:
  "send_request_callback s' = send_request_callback s
   \<Longrightarrow> snd (snd (recover_attempts attempts c s')) = snd (snd (recover_attempts attempts c s))"
proof (induction attempts)
  case Nil
  then show ?case by simp
next
  case (Cons a attempts)
  then show ?case
    by (auto simp: Let_def split: option.splits venue_reply.splits)
qed

lemma recovery_outcome_cong:
  "send_request_callback s' = send_request_callback s
   \<Longrightarrow> max_recovery_attempts s' = max_recovery_attempts s
   \<Longrightarrow> recovery_outcome s' c = recovery_outcome s c"
  using recover_attempts_same_outcome[of
      "s'\<lparr>total_recoveries_attempted := total_recoveries_attempted s' + 1\<rparr>"
      "s\<lparr>total_recoveries_attempted := total_recoveries_attempted s + 1\<rparr>"
      "[0..<nat (max_recovery_attempts s)]" c]
  by (simp add: recovery_outcome_def recover_single_contract_def)

lemma profit_contribution_cong:
  "send_request_callback s' = send_request_callback s
   \<Longrightarrow> max_recovery_attempts s' = max_recovery_attempts s
   \<Longrightarrow> profit_contribution s' c = profit_contribution s c"
  using recovery_outcome_cong[of s' s c] by (simp add: profit_contribution_def)

lemma recover_attempts_amount:
  "amount (fst (recover_attempts attempts c s)) = amount c"
proof (induction attempts)
  case Nil
  then show ?case by simp
next
  case (Cons a attempts)
  then show ?case
    by (auto simp: Let_def split: option.splits venue_reply.splits)
qed

lemma recover_single_amount:
  "amount (fst (recover_single_contract c s)) = amount c"
  by (simp add: recover_single_contract_def recover_attempts_amount)

text \<open>What one pass of the loop body does to the report.\<close>

lemma recover_items_Cons_report:
  "\<exists>c' s' r'. recover_items ((k, c) # rest) s r =
       (case recover_items rest s' r' of (items, s'', r'') \<Rightarrow> ((k, c') # items, s'', r''))
     \<and> send_request_callback s' = send_request_callback s
     \<and> max_recovery_attempts s' = max_recovery_attempts s
     \<and> recovered r' = recovered r + (if success (recovery_outcome s c) then 1 else 0)
     \<and> failed r' = failed r + (if success (recovery_outcome s c) then 0 else 1)
     \<and> total_profit r' = total_profit r + profit_contribution s c"
proof -
  obtain c1 s1 res where rs: "recover_single_contract c s = (c1, s1, res)"
    by (cases "recover_single_contract c s") auto
  have keep: "send_request_callback s1 = send_request_callback s"
    "max_recovery_attempts s1 = max_recovery_attempts s"
    using recover_single_keeps_callbacks[of c s] rs by simp_all
  have out: "recovery_outcome s c = res"
    using rs by (simp add: recovery_outcome_def)
  have am: "amount c1 = amount c"
    using recover_single_amount[of c s] rs by simp
  show ?thesis
  proof (cases "success res")
    case False
    then show ?thesis using rs keep out am
      by (simp add: Let_def profit_contribution_def)
        (rule exI[of _ "c1\<lparr>status := FINISHED, profit := - amount c\<rparr>"],
          rule exI[of _ "s1\<lparr>contracts_forced_as_loss := contracts_forced_as_loss s1 + 1\<rparr>"],
          rule exI[of _ "r\<lparr>failed := failed r + 1,
                          total_profit := total_profit r - amount c\<rparr>"], auto)
  next
    case True
    note succ = True
    show ?thesis
    proof (cases "contract_update_callback s1")
      case None
      then show ?thesis using rs keep out succ
        by (simp add: Let_def profit_contribution_def) (rule exI[of _ c1], rule exI[of _ s1],
          rule exI[of _ "r\<lparr>recovered := recovered r + 1,
                          total_profit := total_profit r + result_profit res\<rparr>"], auto)
    next
      case (Some callback)
      obtain c2 raised where cb: "callback c1 (result_data res) = (c2, raised)"
        by (cases "callback c1 (result_data res)") auto
      show ?thesis using rs keep out succ Some cb
        by (simp add: Let_def profit_contribution_def) (rule exI[of _ c2],
          rule exI[of _ "case raised of None \<Rightarrow> s1
              | Some e \<Rightarrow> s1\<lparr>recovery_error_log := recovery_error_log s1 @ [CallbackErrorLogged e]\<rparr>"],
          rule exI[of _ "r\<lparr>recovered := recovered r + 1,
                          total_profit := total_profit r + result_profit res\<rparr>"],
          auto split: option.splits)
    qed
  qed
qed

lemma recover_items_report:
  "recover_items items s r = (items', s', r')
   \<Longrightarrow> length items' = length items
       \<and> recovered r' = recovered r
           + int (length (filter (\<lambda>c. success (recovery_outcome s c)) (map snd items)))
       \<and> failed r' = failed r
           + int (length (filter (\<lambda>c. \<not> success (recovery_outcome s c)) (map snd items)))
       \<and> total_profit r' = total_profit r + sum_list (map (profit_contribution s) (map snd items))"
proof (induction items arbitrary: s r items' s' r')
  case Nil
  then show ?case by simp
next
  case (Cons kc items)
  obtain k c where kc: "kc = (k, c)" by (cases kc) auto
  obtain c1 s1 r1 where step: "recover_items ((k, c) # items) s r =
       (case recover_items items s1 r1 of (its, s'', r'') \<Rightarrow> ((k, c1) # its, s'', r''))"
    and keep: "send_request_callback s1 = send_request_callback s"
      "max_recovery_attempts s1 = max_recovery_attempts s"
    and rep: "recovered r1 = recovered r + (if success (recovery_outcome s c) then 1 else 0)"
      "failed r1 = failed r + (if success (recovery_outcome s c) then 0 else 1)"
      "total_profit r1 = total_profit r + profit_contribution s c"
    using recover_items_Cons_report[of k c items s r] by blast
  obtain its s2 r2 where rest: "recover_items items s1 r1 = (its, s2, r2)"
    by (cases "recover_items items s1 r1") auto
  have res: "items' = (k, c1) # its" "r' = r2"
    using Cons.prems step rest kc by simp_all
  have same: "recovery_outcome s1 = recovery_outcome s" "profit_contribution s1 = profit_contribution s"
    using recovery_outcome_cong[OF keep] profit_contribution_cong[OF keep] by auto
  show ?case using Cons.IH[OF rest] rep res kc same by simp
qed

text \<open>
  C10. For every snapshot the report is determined position by position. Its total is the
  number of snapshotted positions; its recovered count is the number of positions for which
  recovery succeeds and its failed count the number for which it does not, so each position
  adds one to exactly one of the two and they add up to the total; its total profit is the
  sum of the positions' contributions. A position the venue reports as still open, at any
  attempt before which every response was unusable, is a success, so it is counted as
  recovered, it is left unchanged, and its contribution to the total profit is 0.
\<close>

theorem recovery_report_consistent:
  "total_contracts (snd (recover_lost_contracts s)) = length (monitored_contracts s)
   \<and> recovered (snd (recover_lost_contracts s))
       = int (length (filter (\<lambda>c. success (recovery_outcome s c))
                (map snd (monitored_contracts s))))
   \<and> failed (snd (recover_lost_contracts s))
       = int (length (filter (\<lambda>c. \<not> success (recovery_outcome s c))
                (map snd (monitored_contracts s))))
   \<and> recovered (snd (recover_lost_contracts s)) + failed (snd (recover_lost_contracts s))
       = int (total_contracts (snd (recover_lost_contracts s)))
   \<and> total_profit (snd (recover_lost_contracts s))
       = sum_list (map (profit_contribution s) (map snd (monitored_contracts s)))
   \<and> (send_request_callback s = Some send \<and> j < nat (max_recovery_attempts s)
        \<and> (\<forall>a<j. unusable (send (id' c) a))
        \<and> send (id' c) j = ResponseData cd \<and> data_status cd = Some ''open''
      \<longrightarrow> recover_single_contract c s =
            (c, s\<lparr>total_recoveries_attempted := total_recoveries_attempted s + 1\<rparr>,
             \<lparr>success = True, result_profit = 0, result_data = Some cd,
              still_active = True\<rparr>)
          \<and> success (recovery_outcome s c) \<and> profit_contribution s c = 0)"
proof -
  let ?zero = "\<lparr>total_contracts = 0, recovered = 0, failed = 0, total_profit = 0\<rparr>"
  let ?ps = "map snd (monitored_contracts s)"
  let ?r = "snd (recover_lost_contracts s)"
  have counts: "total_contracts ?r = length (monitored_contracts s)
   \<and> recovered ?r = int (length (filter (\<lambda>c. success (recovery_outcome s c)) ?ps))
   \<and> failed ?r = int (length (filter (\<lambda>c. \<not> success (recovery_outcome s c)) ?ps))
   \<and> total_profit ?r = sum_list (map (profit_contribution s) ?ps)"
  proof (cases "monitored_contracts s = []")
    case True
    then show ?thesis by (simp add: recover_lost_contracts_def)
  next
    case False
    obtain items' s' r' where run: "recover_items (monitored_contracts s) s ?zero = (items', s', r')"
      by (cases "recover_items (monitored_contracts s) s ?zero") auto
    then show ?thesis using recover_items_report[OF run] False
      by (simp add: recover_lost_contracts_def)
  qed
  have "length (filter (\<lambda>c. success (recovery_outcome s c)) ?ps)
        + length (filter (\<lambda>c. \<not> success (recovery_outcome s c)) ?ps) = length ?ps"
    by (rule sum_length_filter_compl)
  then have total: "recovered ?r + failed ?r = int (total_contracts ?r)"
    using counts by simp
  have still_open: "recover_single_contract c s =
            (c, s\<lparr>total_recoveries_attempted := total_recoveries_attempted s + 1\<rparr>,
             \<lparr>success = True, result_profit = 0, result_data = Some cd,
              still_active = True\<rparr>)
          \<and> success (recovery_outcome s c) \<and> profit_contribution s c = 0"
    if "send_request_callback s = Some send \<and> j < nat (max_recovery_attempts s)
        \<and> (\<forall>a<j. unusable (send (id' c) a))
        \<and> send (id' c) j = ResponseData cd \<and> data_status cd = Some ''open''"
  proof -
    have "recover_single_contract c s =
            (c, s\<lparr>total_recoveries_attempted := total_recoveries_attempted s + 1\<rparr>,
             \<lparr>success = True, result_profit = 0, result_data = Some cd,
              still_active = True\<rparr>)"
      using recover_single_open[of s send j c cd] that by blast
    then show ?thesis by (simp add: recovery_outcome_def profit_contribution_def)
  qed
  show ?thesis
    apply (intro conjI impI)
    using counts apply simp
    using counts apply simp
    using counts apply simp
    using total apply simp
    using counts apply simp
    using still_open apply simp
    using still_open apply simp
    using still_open apply simp
    done
qed

theorem recovery_report_consistent_witness:
  "snd (recover_lost_contracts still_open_recovery)
     = \<lparr>total_contracts = 1, recovered = 1, failed = 0, total_profit = 0\<rparr>
   \<and> success (recovery_outcome still_open_recovery open_position)
   \<and> profit_contribution still_open_recovery open_position = 0"
  using recovery_report_consistent[of still_open_recovery
      "\<lambda>contract_id attempt. if attempt = 0 then NoResponse else ResponseData still_open_data"
      1 open_position still_open_data]
  by (simp add: still_open_recovery_def new_recovery_def still_open_data_def
      recover_lost_contracts_def)

section \<open>Reconciliation: the balance correction\<close>

lemma find_target_None:
  "(\<forall>k<length xs. find_contract (active_contracts (snd (xs ! k))) cid = None)
   \<Longrightarrow> find_target xs cid = None"
proof (induction xs)
  case Nil
  then show ?case by simp
next
  case (Cons x xs)
  obtain k a where x: "x = (k, a)" by (cases x) auto
  have "find_contract (active_contracts a) cid = None"
    using Cons.prems[rule_format, of 0] x by simp
  moreover have "find_target xs cid = None"
  proof (rule Cons.IH, intro allI impI)
    fix n assume "n < length xs"
    then show "find_contract (active_contracts (snd (xs ! n))) cid = None"
      using Cons.prems[rule_format, of "Suc n"] by simp
  qed
  ultimately show ?case using x by simp
qed

lemma risk_keeps_contracts:
  "active_contracts (fst (risk_process_operation_result rm a won p)) = active_contracts a
   \<and> forced_total_loss (fst (risk_process_operation_result rm a won p)) = forced_total_loss a"
  by (cases rm)
    (simp_all add: risk_process_operation_result_def reset_sequence_def advance_sequence_def)

lemma set_asset_simps:
  "balance (set_asset i a s) = balance s"
  "length (asset_states (set_asset i a s)) = length (asset_states s)"
  "i < length (asset_states s) \<Longrightarrow> snd (asset_states (set_asset i a s) ! i) = a"
  "k \<noteq> i \<Longrightarrow> asset_states (set_asset i a s) ! k = asset_states s ! k"
  "DUAL_ENTRY (set_asset i a s) = DUAL_ENTRY s"
  "risk_manager (set_asset i a s) = risk_manager s"
  by (simp_all add: set_asset_def)

lemma process_operation_result_simps:
  "balance (process_operation_result i won p s) = balance s + p"
  "length (asset_states (process_operation_result i won p s)) = length (asset_states s)"
  "i < length (asset_states s) \<Longrightarrow>
     snd (asset_states (process_operation_result i won p s) ! i)
       = fst (risk_process_operation_result (risk_manager s) (snd (asset_states s ! i)) won p)"
  "k \<noteq> i \<Longrightarrow> asset_states (process_operation_result i won p s) ! k = asset_states s ! k"
  by (simp_all add: process_operation_result_def Let_def set_asset_def)

text \<open>
  Booking an operation whose positions are all finished empties the asset's list of
  positions.
\<close>

lemma process_sequence_result_clears:
  assumes "i < length (asset_states s)"
    and "active_contracts (snd (asset_states s ! i)) \<noteq> []"
    and "all_contracts_finished (snd (asset_states s ! i))"
  shows "active_contracts (snd (asset_states (process_sequence_result i s) ! i)) = []"
    and "forced_total_loss (snd (asset_states (process_sequence_result i s) ! i))
           = forced_total_loss (snd (asset_states s ! i))"
    and "balance (process_sequence_result i s)
           = balance s + sum_list (map profit (active_contracts (snd (asset_states s ! i))))"
    and "length (asset_states (process_sequence_result i s)) = length (asset_states s)"
    and "k \<noteq> i \<Longrightarrow> asset_states (process_sequence_result i s) ! k = asset_states s ! k"
proof -
  have none_left: "filter (\<lambda>c. \<not> is_finished c) (active_contracts (snd (asset_states s ! i))) = []"
    using assms(3) by (simp add: all_contracts_finished_def list_all_iff)
  show "active_contracts (snd (asset_states (process_sequence_result i s) ! i)) = []"
    using assms(1,2) none_left
    by (simp add: process_sequence_result_def Let_def set_asset_simps
        process_operation_result_simps risk_keeps_contracts clear_finished_contracts_def)
  show "forced_total_loss (snd (asset_states (process_sequence_result i s) ! i))
           = forced_total_loss (snd (asset_states s ! i))"
    using assms(1,2)
    by (simp add: process_sequence_result_def Let_def set_asset_simps
        process_operation_result_simps risk_keeps_contracts clear_finished_contracts_def)
  show "balance (process_sequence_result i s)
           = balance s + sum_list (map profit (active_contracts (snd (asset_states s ! i))))"
    using assms(1,2)
    by (simp add: process_sequence_result_def Let_def set_asset_simps
        process_operation_result_simps)
  show "length (asset_states (process_sequence_result i s)) = length (asset_states s)"
    by (simp add: process_sequence_result_def Let_def set_asset_simps
        process_operation_result_simps)
  show "k \<noteq> i \<Longrightarrow> asset_states (process_sequence_result i s) ! k = asset_states s ! k"
    by (simp add: process_sequence_result_def Let_def set_asset_simps
        process_operation_result_simps)
qed

text \<open>
  Where the correction is reached with no forced total recorded, as for a position forced
  while another position of its asset was still unfinished, the subtraction raises and the
  balance is left as it was.
\<close>

lemma correction_without_recorded_total_raises:
  "forced_total_loss (snd (asset_states s ! i)) = InstanceAttr None
   \<Longrightarrow> snd (correct_results_after_recovery i s) = Some TypeError
       \<and> balance (fst (correct_results_after_recovery i s)) = balance s"
  by (simp add: correct_results_after_recovery_def Let_def set_asset_def)

text \<open>
  C1. The only path that marks a position as forced and records the forced total of its
  operation is the forcing of the last unfinished position of an asset. That path books the
  forced total on the balance and then removes the finished positions from the asset. So when
  the confirmed result of the position arrives afterwards, the update finds no position with
  that id (none being listed under another asset) and returns without touching anything: no
  correction is applied to the balance and the sequence counter is not rolled back, while the
  recorded forced total stays behind.
\<close>

theorem forced_operation_is_never_corrected:
  assumes "i < length (asset_states s)"
    and "j < length (active_contracts (snd (asset_states s ! i)))"
    and "\<forall>k<length (active_contracts (snd (asset_states s ! i))).
           k \<noteq> j \<longrightarrow> is_finished (active_contracts (snd (asset_states s ! i)) ! k)"
    and "\<forall>k<length (asset_states s).
           k \<noteq> i \<longrightarrow> find_contract (active_contracts (snd (asset_states s ! k))) (id' contract) = None"
  shows "active_contracts (snd (asset_states (force_contract_as_loss i j s) ! i)) = []
    \<and> forced_total_loss (snd (asset_states (force_contract_as_loss i j s) ! i))
        = InstanceAttr (Some (sum_list (map profit
            ((active_contracts (snd (asset_states s ! i)))
               [j := (active_contracts (snd (asset_states s ! i)) ! j)
                  \<lparr>forced_result := True, status := LOST,
                   profit := - amount (active_contracts (snd (asset_states s ! i)) ! j)\<rparr>]))))
    \<and> balance (force_contract_as_loss i j s)
        = balance s + sum_list (map profit
            ((active_contracts (snd (asset_states s ! i)))
               [j := (active_contracts (snd (asset_states s ! i)) ! j)
                  \<lparr>forced_result := True, status := LOST,
                   profit := - amount (active_contracts (snd (asset_states s ! i)) ! j)\<rparr>]))
    \<and> process_contract_recovery_update contract (force_contract_as_loss i j s)
        = (force_contract_as_loss i j s, None)"
proof -
  define a where "a = snd (asset_states s ! i)"
  define cs where "cs = active_contracts a"
  define forced where
    "forced = (cs ! j)\<lparr>forced_result := True, status := LOST, profit := - amount (cs ! j)\<rparr>"
  define a1 where "a1 = a\<lparr>active_contracts := cs[j := forced]\<rparr>"
  define a2 where
    "a2 = a1\<lparr>forced_total_loss :=
             InstanceAttr (Some (sum_list (map profit (active_contracts a1))))\<rparr>"
  define s2 where "s2 = set_asset i a2 (set_asset i a1 s)"
  have j: "j < length cs" using assms(2) by (simp add: cs_def a_def)
  have forced_fin: "is_finished forced" by (simp add: forced_def is_finished_def)
  have fin: "list_all is_finished (cs[j := forced])"
    unfolding list_all_length
  proof (intro allI impI)
    fix n assume "n < length (cs[j := forced])"
    then show "is_finished (cs[j := forced] ! n)"
      using assms(3) forced_fin j by (cases "n = j") (simp_all add: cs_def a_def)
  qed
  have fin1: "all_contracts_finished a1"
    using fin by (simp add: all_contracts_finished_def a1_def)
  have run: "force_contract_as_loss i j s = process_sequence_result i s2"
    using fin1
    by (simp add: force_contract_as_loss_def Let_def a_def[symmetric] cs_def[symmetric]
        forced_def[symmetric] a1_def[symmetric] a2_def[symmetric] s2_def)
  have s2: "i < length (asset_states s2)" "snd (asset_states s2 ! i) = a2"
    "balance s2 = balance s"
    "length (asset_states s2) = length (asset_states s)"
    "\<And>k. k \<noteq> i \<Longrightarrow> asset_states s2 ! k = asset_states s ! k"
    using assms(1) by (simp_all add: s2_def set_asset_simps)
  have a2: "active_contracts a2 = cs[j := forced]"
    "forced_total_loss a2 = InstanceAttr (Some (sum_list (map profit (cs[j := forced]))))"
    by (simp_all add: a2_def a1_def)
  have ne: "active_contracts (snd (asset_states s2 ! i)) \<noteq> []"
    using s2(2) a2(1) j by auto
  have fin2: "all_contracts_finished (snd (asset_states s2 ! i))"
    using fin s2(2) a2(1) by (simp add: all_contracts_finished_def)
  note cl = process_sequence_result_clears[OF s2(1) ne fin2]
  have cleared: "active_contracts (snd (asset_states (force_contract_as_loss i j s) ! i)) = []"
    using cl(1) run by simp
  have total: "forced_total_loss (snd (asset_states (force_contract_as_loss i j s) ! i))
        = InstanceAttr (Some (sum_list (map profit (cs[j := forced]))))"
    using cl(2) run s2(2) a2(2) by simp
  have bal: "balance (force_contract_as_loss i j s)
        = balance s + sum_list (map profit (cs[j := forced]))"
    using cl(3) run s2(2,3) a2(1) by simp
  have len: "length (asset_states (force_contract_as_loss i j s)) = length (asset_states s)"
    using cl(4) run s2(4) by simp
  have others: "asset_states (force_contract_as_loss i j s) ! k = asset_states s ! k"
    if "k \<noteq> i" for k
    using cl(5)[OF that] run s2(5)[OF that] by simp
  have "find_contract (active_contracts (snd (asset_states (force_contract_as_loss i j s) ! k)))
           (id' contract) = None"
    if "k < length (asset_states (force_contract_as_loss i j s))" for k
  proof (cases "k = i")
    case True
    then show ?thesis using cleared by simp
  next
    case False
    then show ?thesis using assms(4) that len others[OF False] by simp
  qed
  then have "find_target (asset_states (force_contract_as_loss i j s)) (id' contract) = None"
    using find_target_None[of "asset_states (force_contract_as_loss i j s)" "id' contract"]
    by blast
  then have unchanged: "process_contract_recovery_update contract (force_contract_as_loss i j s)
        = (force_contract_as_loss i j s, None)"
    by (simp add: process_contract_recovery_update_def)
  show ?thesis
    using cleared total bal unchanged by (simp add: cs_def a_def forced_def)
qed

theorem forced_operation_is_never_corrected_witness:
  "process_contract_recovery_update confirmed_win
      (force_contract_as_loss 0 0 bot_with_open_position)
     = (force_contract_as_loss 0 0 bot_with_open_position, None)
   \<and> balance (force_contract_as_loss 0 0 bot_with_open_position) = 99
   \<and> current_sequence (snd (asset_states (force_contract_as_loss 0 0 bot_with_open_position) ! 0))
       = 2
   \<and> forced_total_loss (snd (asset_states (force_contract_as_loss 0 0 bot_with_open_position) ! 0))
       = InstanceAttr (Some (- 1))
   \<and> profit confirmed_win - (- 1) = 1.95"
  using forced_operation_is_never_corrected[of 0 bot_with_open_position 0 confirmed_win]
  by (simp add: bot_with_open_position_def open_position_def confirmed_win_def
      force_contract_as_loss_def process_sequence_result_def process_operation_result_def
      risk_process_operation_result_def advance_sequence_def reset_sequence_def
      clear_finished_contracts_def all_contracts_finished_def is_finished_def set_asset_def
      process_contract_recovery_update_def Let_def)

end
